theory Spec2Isabelle
  imports Complex_Main "HOL-Library.Sublist"
begin

section \<open>Numbers\<close>

text \<open>
  The TypeScript type \<open>number\<close> is the IEEE 754 binary64 format. A value is a finite number,
  an infinity or \<open>NaN\<close>. A finite number is held as the real it denotes, and the two zeros
  are one number: the program never divides by a zero and hands \<open>Math.atan2\<close> square roots
  only, so that the sign of a zero reaches no result.
\<close>

datatype number = Finite real | PosInf | NegInf | NaN

text \<open>\<open>2\<^sup>k\<close> for an integer \<open>k\<close>.\<close>

definition pow2 :: "int \<Rightarrow> real" where
  "pow2 k = 2 powr real_of_int k"

text \<open>The integer nearest to \<open>x\<close>; of two nearest integers the even one.\<close>

definition roundTiesToEven :: "real \<Rightarrow> int" where
  "roundTiesToEven x =
     (let f = \<lfloor>x\<rfloor>
      in if x - of_int f < 1 / 2 then f
         else if 1 / 2 < x - of_int f then f + 1
         else if even f then f else f + 1)"

text \<open>
  The exponent of the binade of \<open>x\<close>, and \<open>-1022\<close> for the subnormal numbers. A double of
  this binade is a multiple of \<open>2\<^sup>e\<^sup>-\<^sup>5\<^sup>2\<close>.
\<close>

definition exponentOf :: "real \<Rightarrow> int" where
  "exponentOf x = max (- 1022) \<lfloor>log 2 \<bar>x\<bar>\<rfloor>"

text \<open>Rounding to the nearest double, ties to even, before overflow is looked at.\<close>

definition roundToDouble :: "real \<Rightarrow> real" where
  "roundToDouble x =
     (let u = pow2 (exponentOf x - 52)
      in sgn x * (of_int (roundTiesToEven (\<bar>x\<bar> / u)) * u))"

text \<open>
  The double that an operation with the exact result \<open>x\<close> returns: a result that rounds to
  \<open>2\<^sup>1\<^sup>0\<^sup>2\<^sup>4\<close> or beyond in size is an infinity.
\<close>

definition round64 :: "real \<Rightarrow> number" where
  "round64 x =
     (let r = roundToDouble x
      in if 2 ^ 1024 \<le> \<bar>r\<bar> then (if 0 < x then PosInf else NegInf) else Finite r)"

text \<open>Unary minus, \<open>+\<close>, \<open>-\<close>, \<open>*\<close> and \<open>/\<close> on numbers.\<close>

definition n_neg :: "number \<Rightarrow> number" where
  "n_neg x = (case x of Finite r \<Rightarrow> Finite (- r) | PosInf \<Rightarrow> NegInf | NegInf \<Rightarrow> PosInf | NaN \<Rightarrow> NaN)"

definition n_add :: "number \<Rightarrow> number \<Rightarrow> number" where
  "n_add x y =
     (case (x, y) of
        (Finite a, Finite b) \<Rightarrow> round64 (a + b)
      | (NaN, _) \<Rightarrow> NaN
      | (_, NaN) \<Rightarrow> NaN
      | (PosInf, NegInf) \<Rightarrow> NaN
      | (NegInf, PosInf) \<Rightarrow> NaN
      | (PosInf, _) \<Rightarrow> PosInf
      | (_, PosInf) \<Rightarrow> PosInf
      | (NegInf, _) \<Rightarrow> NegInf
      | (_, NegInf) \<Rightarrow> NegInf)"

definition n_sub :: "number \<Rightarrow> number \<Rightarrow> number" where
  "n_sub x y = n_add x (n_neg y)"

text \<open>The sign of a number: \<open>1\<close>, \<open>-1\<close>, or \<open>0\<close> for a zero and for \<open>NaN\<close>.\<close>

definition signOf :: "number \<Rightarrow> real" where
  "signOf x = (case x of Finite r \<Rightarrow> sgn r | PosInf \<Rightarrow> 1 | NegInf \<Rightarrow> - 1 | NaN \<Rightarrow> 0)"

definition n_mul :: "number \<Rightarrow> number \<Rightarrow> number" where
  "n_mul x y =
     (case (x, y) of
        (Finite a, Finite b) \<Rightarrow> round64 (a * b)
      | _ \<Rightarrow> if x = NaN \<or> y = NaN \<or> signOf x * signOf y = 0 then NaN
             else if 0 < signOf x * signOf y then PosInf else NegInf)"

definition n_div :: "number \<Rightarrow> number \<Rightarrow> number" where
  "n_div x y =
     (case (x, y) of
        (Finite a, Finite b) \<Rightarrow>
          if b = 0 then (if a = 0 then NaN else if 0 < a then PosInf else NegInf)
          else round64 (a / b)
      | (Finite a, PosInf) \<Rightarrow> Finite 0
      | (Finite a, NegInf) \<Rightarrow> Finite 0
      | (PosInf, Finite b) \<Rightarrow> if 0 \<le> b then PosInf else NegInf
      | (NegInf, Finite b) \<Rightarrow> if 0 \<le> b then NegInf else PosInf
      | _ \<Rightarrow> NaN)"

text \<open>The comparison \<open>x <= y\<close>: false when an operand is \<open>NaN\<close>.\<close>

definition numLe :: "number \<Rightarrow> number \<Rightarrow> bool" where
  "numLe x y =
     (case (x, y) of
        (Finite a, Finite b) \<Rightarrow> a \<le> b
      | (NaN, _) \<Rightarrow> False
      | (_, NaN) \<Rightarrow> False
      | (NegInf, _) \<Rightarrow> True
      | (_, PosInf) \<Rightarrow> True
      | _ \<Rightarrow> False)"

text \<open>\<open>Math.max(x, y)\<close>: \<open>NaN\<close> when an argument is \<open>NaN\<close>.\<close>

definition n_max :: "number \<Rightarrow> number \<Rightarrow> number" where
  "n_max x y = (if x = NaN \<or> y = NaN then NaN else if numLe x y then y else x)"

text \<open>\<open>Math.PI\<close>, the double nearest to \<open>\<pi>\<close>: \<open>884279719003555 / 2\<^sup>4\<^sup>8\<close>.\<close>

definition Math_PI :: number where
  "Math_PI = Finite (884279719003555 / 281474976710656)"

text \<open>A number that is not \<open>NaN\<close> and not below zero.\<close>

definition nonNegative :: "number \<Rightarrow> bool" where
  "nonNegative x = numLe (Finite 0) x"

text \<open>
  \<open>Math.sin\<close>, \<open>Math.cos\<close>, \<open>Math.sqrt\<close> and \<open>Math.atan2\<close> are approximated by the
  engine: the language prescribes their values at special arguments and leaves the others to
  the implementation. The functions are a parameter of the model.
\<close>

record math_library =
  Math_sin :: "number \<Rightarrow> number"
  Math_cos :: "number \<Rightarrow> number"
  Math_sqrt :: "number \<Rightarrow> number"
  Math_atan2 :: "number \<Rightarrow> number \<Rightarrow> number"

text \<open>
  What the statements below use of the \<open>Math\<close> object. Prescribed by the language: the
  values at \<open>NaN\<close>, at the infinities and at zero, and \<open>NaN\<close> for the square root of a
  negative number. Required of the implementation: the sine is odd; a sine or cosine of a
  finite number is finite and at most 1 in size; the sine of a number of size at most
  \<open>2\<^sup>k\<close> has size at most \<open>2\<^sup>k\<close>; the square root of 1 is 1; the square root of a number that
  is not negative is not negative; and \<open>Math.atan2\<close> of two such numbers is finite and not
  negative.
\<close>

definition conforming :: "math_library \<Rightarrow> bool" where
  "conforming M \<longleftrightarrow>
     (\<forall>x. Math_sin M (n_neg x) = n_neg (Math_sin M x))
     \<and> Math_sin M (Finite 0) = Finite 0
     \<and> Math_sin M PosInf = NaN \<and> Math_sin M NaN = NaN
     \<and> (\<forall>r. \<exists>s. Math_sin M (Finite r) = Finite s \<and> \<bar>s\<bar> \<le> 1
            \<and> (\<forall>k. - 1074 \<le> k \<and> \<bar>r\<bar> \<le> pow2 k \<longrightarrow> \<bar>s\<bar> \<le> pow2 k))
     \<and> Math_cos M PosInf = NaN \<and> Math_cos M NegInf = NaN \<and> Math_cos M NaN = NaN
     \<and> Math_cos M (Finite 0) = Finite 1
     \<and> (\<forall>r. \<exists>c. Math_cos M (Finite r) = Finite c \<and> \<bar>c\<bar> \<le> 1)
     \<and> Math_sqrt M NaN = NaN \<and> Math_sqrt M NegInf = NaN \<and> Math_sqrt M PosInf = PosInf
     \<and> (\<forall>r. r < 0 \<longrightarrow> Math_sqrt M (Finite r) = NaN)
     \<and> Math_sqrt M (Finite 0) = Finite 0 \<and> Math_sqrt M (Finite 1) = Finite 1
     \<and> (\<forall>r. 0 \<le> r \<longrightarrow> nonNegative (Math_sqrt M (Finite r)))
     \<and> (\<forall>x. Math_atan2 M NaN x = NaN) \<and> (\<forall>y. Math_atan2 M y NaN = NaN)
     \<and> (\<forall>r. 0 < r \<longrightarrow> Math_atan2 M (Finite 0) (Finite r) = Finite 0)
     \<and> (\<forall>y x. nonNegative y \<and> nonNegative x \<longrightarrow>
            (\<exists>t. 0 \<le> t \<and> Math_atan2 M y x = Finite t))"

text \<open>
  The angle of the point \<open>(x, y)\<close> on the reals, in \<open>(-\<pi>, \<pi>]\<close>, and \<open>0\<close> at the origin.
\<close>

definition atan2 :: "real \<Rightarrow> real \<Rightarrow> real" where
  "atan2 y x =
     (if x > 0 then arctan (y / x)
      else if x < 0 then (if y \<ge> 0 then arctan (y / x) + pi else arctan (y / x) - pi)
      else if y > 0 then pi / 2
      else if y < 0 then - pi / 2
      else 0)"

text \<open>The exact angle that \<open>Math.atan2(y, x)\<close> approximates, infinite arguments included.\<close>

definition angle :: "number \<Rightarrow> number \<Rightarrow> real" where
  "angle y x =
     (case (y, x) of
        (Finite a, Finite b) \<Rightarrow> atan2 a b
      | (Finite a, PosInf) \<Rightarrow> 0
      | (Finite a, NegInf) \<Rightarrow> if 0 \<le> a then pi else - pi
      | (PosInf, Finite b) \<Rightarrow> pi / 2
      | (NegInf, Finite b) \<Rightarrow> - pi / 2
      | (PosInf, PosInf) \<Rightarrow> pi / 4
      | (PosInf, NegInf) \<Rightarrow> 3 * pi / 4
      | (NegInf, PosInf) \<Rightarrow> - pi / 4
      | (NegInf, NegInf) \<Rightarrow> - 3 * pi / 4
      | _ \<Rightarrow> 0)"

text \<open>
  The correctly rounded implementation: every function returns the double nearest to the
  exact value.
\<close>

definition roundedMath :: math_library where
  "roundedMath =
     \<lparr> Math_sin = (\<lambda>x. case x of Finite r \<Rightarrow> round64 (sin r) | _ \<Rightarrow> NaN),
       Math_cos = (\<lambda>x. case x of Finite r \<Rightarrow> round64 (cos r) | _ \<Rightarrow> NaN),
       Math_sqrt = (\<lambda>x. case x of
                           Finite r \<Rightarrow> if r < 0 then NaN else round64 (sqrt r)
                         | PosInf \<Rightarrow> PosInf
                         | _ \<Rightarrow> NaN),
       Math_atan2 = (\<lambda>y x. if y = NaN \<or> x = NaN then NaN else round64 (angle y x)) \<rparr>"

section \<open>Data model\<close>

text \<open>
  Coordinates and ratings, which the program reads, compares and passes on, are finite numbers
  and are held as reals; distances and scores, which it computes, are numbers. Strings are
  lists of characters, the empty string being the only falsy one.
\<close>

text \<open>\<open>{ lat: number; lng: number }\<close>\<close>

record latlng =
  lat :: real
  lng :: real

text \<open>\<open>{ ne: {lat, lng}; sw: {lat, lng} }\<close>, the optional \<open>bounds\<close> argument.\<close>

record bounds =
  ne :: latlng
  sw :: latlng

text \<open>
  Interface \<open>GeocodingResult\<close>. The field \<open>location\<close> stands for \<open>geometry.location\<close>; a photo
  is its \<open>photo_reference\<close> string. The optional fields \<open>rating\<close>, \<open>user_ratings_total\<close> and
  \<open>photos\<close> are options.
\<close>

record place =
  place_id :: string
  formatted_address :: string
  location :: latlng
  name :: string
  types :: "string list"
  rating :: "real option"
  user_ratings_total :: "real option"
  photos :: "string list option"

section \<open>Distance-ranked search: the helpers of \<open>searchLocationsByDistanceAndPopularity\<close>\<close>

text \<open>\<open>isWithinBounds\<close>: without bounds every point is accepted.\<close>

definition isWithinBounds :: "bounds option \<Rightarrow> real \<Rightarrow> real \<Rightarrow> bool" where
  "isWithinBounds bnds la lo =
     (case bnds of
        None \<Rightarrow> True
      | Some b \<Rightarrow> la \<ge> lat (sw b) \<and> la \<le> lat (ne b) \<and> lo \<ge> lng (sw b) \<and> lo \<le> lng (ne b))"

text \<open>The first \<open>switch (category)\<close> of \<open>addUniqueResults\<close>: the provider type of a category.\<close>

definition placeTypeOf :: "string \<Rightarrow> string option" where
  "placeTypeOf category =
     (if category = ''restaurants'' \<or> category = ''restaurant'' then Some ''restaurant''
      else if category = ''hotels'' \<or> category = ''lodging'' then Some ''lodging''
      else if category = ''attractions'' \<or> category = ''tourist_attraction''
        then Some ''tourist_attraction''
      else if category = ''shopping'' \<or> category = ''shopping_mall'' \<or> category = ''store''
        then Some ''shopping_mall''
      else if category = ''cafes'' \<or> category = ''cafe'' then Some ''cafe''
      else if category = ''establishment'' then Some ''establishment''
      else None)"

text \<open>The callback of \<open>place.types.some\<close>: does the tag \<open>ty\<close> fit the provider type?\<close>

definition isCorrectTag :: "string \<Rightarrow> string \<Rightarrow> bool" where
  "isCorrectTag placeType ty =
     (if placeType = ''restaurant''
        then ty = ''restaurant'' \<or> ty = ''food'' \<or> ty = ''meal_takeaway'' \<or> ty = ''meal_delivery''
      else if placeType = ''lodging'' then ty = ''lodging'' \<or> ty = ''hotel''
      else if placeType = ''tourist_attraction''
        then ty = ''tourist_attraction'' \<or> ty = ''point_of_interest''
      else if placeType = ''shopping_mall''
        then ty = ''shopping_mall'' \<or> ty = ''store'' \<or> ty = ''shopping''
      else if placeType = ''cafe'' then ty = ''cafe'' \<or> ty = ''food''
      else if placeType = ''establishment''
        then ty = ''establishment'' \<or> ty = ''point_of_interest'' \<or> ty = ''store''
          \<or> ty = ''restaurant'' \<or> ty = ''lodging'' \<or> ty = ''tourist_attraction''
          \<or> ty = ''cafe'' \<or> ty = ''food''
      else True)"

text \<open>
  The type filter: a place is filtered out when a provider type is known, the place has tags
  and none of them fits.
\<close>

definition filteredOutByType :: "string \<Rightarrow> place \<Rightarrow> bool" where
  "filteredOutByType category p =
     (case placeTypeOf category of
        None \<Rightarrow> False
      | Some pt \<Rightarrow> types p \<noteq> [] \<and> \<not> list_ex (isCorrectTag pt) (types p))"

text \<open>\<open>x || d\<close> on strings.\<close>

definition orElse :: "string \<Rightarrow> string \<Rightarrow> string" where
  "orElse s d = (if s = [] then d else s)"

text \<open>The object pushed onto \<open>allResults\<close>: a copy of the place with the defaults filled in.\<close>

definition copyPlace :: "place \<Rightarrow> place" where
  "copyPlace p =
     \<lparr> place_id = place_id p,
       formatted_address = orElse (formatted_address p) ''No address available'',
       location = \<lparr> lat = lat (location p), lng = lng (location p) \<rparr>,
       name = orElse (name p) ''Unknown'',
       types = types p,
       rating = rating p,
       user_ratings_total = user_ratings_total p,
       photos = Some (case photos p of None \<Rightarrow> [] | Some ps \<Rightarrow> ps) \<rparr>"

text \<open>The two variables \<open>addUniqueResults\<close> closes over.\<close>

record accumulator =
  allResults :: "place list"
  seenPlaceIds :: "string set"

definition emptyAccumulator :: accumulator where
  "emptyAccumulator = \<lparr> allResults = [], seenPlaceIds = {} \<rparr>"

text \<open>The body of the \<open>forEach\<close> in \<open>addUniqueResults\<close>, for one place.\<close>

definition addPlace :: "string \<Rightarrow> bounds option \<Rightarrow> accumulator \<Rightarrow> place \<Rightarrow> accumulator" where
  "addPlace category bnds st p =
     (if place_id p \<noteq> [] \<and> place_id p \<notin> seenPlaceIds st then
        if filteredOutByType category p then st
        else if \<not> isWithinBounds bnds (lat (location p)) (lng (location p)) then st
        else st \<lparr> seenPlaceIds := insert (place_id p) (seenPlaceIds st),
                 allResults := allResults st @ [copyPlace p] \<rparr>
      else st)"

definition addUniqueResults ::
    "string \<Rightarrow> bounds option \<Rightarrow> accumulator \<Rightarrow> place list \<Rightarrow> accumulator" where
  "addUniqueResults category bnds st places = foldl (addPlace category bnds) st places"

text \<open>
  \<open>calculateDistance\<close>: the haversine formula, in kilometres, on coordinates in degrees. \<open>M\<close>
  is the \<open>Math\<close> object of the engine.
\<close>

definition calculateDistance :: "math_library \<Rightarrow> real \<Rightarrow> real \<Rightarrow> real \<Rightarrow> real \<Rightarrow> number" where
  "calculateDistance M lat1 lng1 lat2 lng2 =
     (let R = Finite 6371;
          dLat = n_div (n_mul (n_sub (Finite lat2) (Finite lat1)) Math_PI) (Finite 180);
          dLng = n_div (n_mul (n_sub (Finite lng2) (Finite lng1)) Math_PI) (Finite 180);
          a = n_add
                (n_mul (Math_sin M (n_div dLat (Finite 2))) (Math_sin M (n_div dLat (Finite 2))))
                (n_mul
                  (n_mul
                    (n_mul (Math_cos M (n_div (n_mul (Finite lat1) Math_PI) (Finite 180)))
                           (Math_cos M (n_div (n_mul (Finite lat2) Math_PI) (Finite 180))))
                    (Math_sin M (n_div dLng (Finite 2))))
                  (Math_sin M (n_div dLng (Finite 2))));
          c = n_mul (Finite 2) (Math_atan2 M (Math_sqrt M a) (Math_sqrt M (n_sub (Finite 1) a)))
      in n_mul R c)"

text \<open>\<open>calculateScore\<close>: the score of a place seen from the search centre \<open>location\<close>.\<close>

definition calculateScore :: "math_library \<Rightarrow> latlng \<Rightarrow> place \<Rightarrow> number" where
  "calculateScore M center p =
     (let distance = calculateDistance M (lat center) (lng center)
                       (lat (location p)) (lng (location p));
          normalizedDistance = n_max (Finite 0) (n_sub (Finite 1) (n_div distance (Finite 50)))
      in normalizedDistance)"

text \<open>The comparator handed to \<open>allResults.sort\<close>.\<close>

definition compareByScore :: "math_library \<Rightarrow> latlng \<Rightarrow> place \<Rightarrow> place \<Rightarrow> number" where
  "compareByScore M center a b =
     (let scoreA = calculateScore M center a;
          scoreB = calculateScore M center b
      in n_sub scoreB scoreA)"

text \<open>
  \<open>Array.prototype.sort\<close> with a comparator. The language reads a comparator result \<open>NaN\<close>
  as \<open>+0\<close> (\<open>sortCompare\<close>), requires the sort to be stable and leaves the algorithm to the
  engine; the model is insertion sort, where an element is put in front of the first element of
  the sorted rest that the comparator does not place before it. For a comparator that is not
  a consistent ordering, as happens when a score is \<open>NaN\<close>, the language leaves the resulting
  order to the engine; the model then gives the order of this insertion sort.
\<close>

definition sortCompare :: "('a \<Rightarrow> 'a \<Rightarrow> number) \<Rightarrow> 'a \<Rightarrow> 'a \<Rightarrow> number" where
  "sortCompare cmp x y = (let v = cmp x y in if v = NaN then Finite 0 else v)"

fun insertBy :: "('a \<Rightarrow> 'a \<Rightarrow> number) \<Rightarrow> 'a \<Rightarrow> 'a list \<Rightarrow> 'a list" where
  "insertBy cmp x [] = [x]"
| "insertBy cmp x (y # ys) =
     (if numLe (sortCompare cmp x y) (Finite 0) then x # y # ys else y # insertBy cmp x ys)"

definition sortBy :: "('a \<Rightarrow> 'a \<Rightarrow> number) \<Rightarrow> 'a list \<Rightarrow> 'a list" where
  "sortBy cmp xs = foldr (insertBy cmp) xs []"

text \<open>
  \<open>xs.slice(0, end)\<close> for an integer \<open>end\<close>: a negative \<open>end\<close> counts from the end of the
  array.
\<close>

definition slice0 :: "'a list \<Rightarrow> int \<Rightarrow> 'a list" where
  "slice0 xs stop =
     (if stop < 0 then take (nat (int (length xs) + stop)) xs else take (nat stop) xs)"

text \<open>The tail of the function: sort the accumulated places, keep the first \<open>maxResults\<close>.\<close>

definition rankResults :: "math_library \<Rightarrow> latlng \<Rightarrow> int \<Rightarrow> place list \<Rightarrow> place list" where
  "rankResults M center maxResults results =
     slice0 (sortBy (compareByScore M center) results) maxResults"

section \<open>The places adapter: \<open>ModernPlacesAPI\<close>\<close>

text \<open>
  The provider is outside the program. The model takes what the provider hands to the callbacks
  of one request: a list of pages, one for each time the callback is invoked. The arguments
  that only shape the request (query text, centre, radius, type) do not occur.
\<close>

datatype PlacesServiceStatus =
  OK | ZERO_RESULTS | OVER_QUERY_LIMIT | REQUEST_DENIED | INVALID_REQUEST | UNKNOWN_ERROR
  | NOT_FOUND

text \<open>
  The fields the adapter reads of a \<open>google.maps.places.PlaceResult\<close>; all may be missing.
  \<open>pr_location\<close> is \<open>geometry?.location\<close>, and a photo is the URL its \<open>getUrl()\<close> returns.
\<close>

record place_result =
  pr_place_id :: "string option"
  pr_name :: "string option"
  pr_formatted_address :: "string option"
  pr_location :: "latlng option"
  pr_rating :: "real option"
  pr_user_ratings_total :: "real option"
  pr_types :: "string list option"
  pr_photos :: "string list option"

text \<open>The arguments of one invocation of the search callback.\<close>

record page =
  results :: "place_result list option"
  status :: PlacesServiceStatus
  pagination :: "bool option"

text \<open>A thrown \<open>Error\<close> with its message.\<close>

datatype js_error = Error string

text \<open>\<open>x || d\<close> for a string that may be undefined.\<close>

definition orDefault :: "string option \<Rightarrow> string \<Rightarrow> string" where
  "orDefault x d = (case x of None \<Rightarrow> d | Some s \<Rightarrow> orElse s d)"

text \<open>The object built in \<open>results.map(place => ...)\<close>.\<close>

definition convertResult :: "place_result \<Rightarrow> place" where
  "convertResult r =
     \<lparr> place_id = orDefault (pr_place_id r) [],
       formatted_address = orDefault (pr_formatted_address r) ''No address available'',
       location = \<lparr> lat = (case pr_location r of None \<Rightarrow> 0 | Some l \<Rightarrow> lat l),
                    lng = (case pr_location r of None \<Rightarrow> 0 | Some l \<Rightarrow> lng l) \<rparr>,
       name = orDefault (pr_name r) ''Unknown'',
       types = (case pr_types r of None \<Rightarrow> [] | Some ts \<Rightarrow> ts),
       rating = pr_rating r,
       user_ratings_total = pr_user_ratings_total r,
       photos = Some (case pr_photos r of None \<Rightarrow> [] | Some us \<Rightarrow> us) \<rparr>"

text \<open>
  The callback of \<open>service.textSearch\<close> and \<open>service.nearbySearch\<close>, run on the pages the
  provider delivers. \<open>Some rs\<close>: the promise resolves with \<open>rs\<close>. \<open>None\<close>: the provider stops
  calling back before the promise is resolved, which then stays pending.
\<close>

fun searchCallback :: "place list \<Rightarrow> page list \<Rightarrow> place list option" where
  "searchCallback allRes [] = None"
| "searchCallback allRes (pg # pgs) =
     (case results pg of
        None \<Rightarrow> Some allRes
      | Some rs \<Rightarrow>
          if status pg = OK then
            (let allRes' = allRes @ map convertResult rs in
             if pagination pg = Some True \<and> length allRes' < 60
             then searchCallback allRes' pgs
             else Some allRes')
          else Some allRes)"

text \<open>
  \<open>textSearch\<close>, \<open>nearbySearch\<close> and \<open>findPlaceFromQuery\<close>. \<open>loaded\<close> says that the global
  \<open>google.maps.places\<close> exists. \<open>Inl\<close> is a rejected promise, \<open>Inr\<close> a resolved one.
\<close>

definition textSearch :: "bool \<Rightarrow> page list \<Rightarrow> (js_error + place list) option" where
  "textSearch loaded pgs =
     (if \<not> loaded then Some (Inl (Error ''Google Maps API not loaded''))
      else map_option Inr (searchCallback [] pgs))"

definition nearbySearch :: "bool \<Rightarrow> page list \<Rightarrow> (js_error + place list) option" where
  "nearbySearch loaded pgs =
     (if \<not> loaded then Some (Inl (Error ''Google Maps API not loaded''))
      else map_option Inr (searchCallback [] pgs))"

definition findPlaceFromQuery ::
    "bool \<Rightarrow> (place_result list option \<times> PlacesServiceStatus) option
      \<Rightarrow> (js_error + place list) option" where
  "findPlaceFromQuery loaded reply =
     (if \<not> loaded then Some (Inl (Error ''Google Maps API not loaded''))
      else case reply of
        None \<Rightarrow> None
      | Some (None, st) \<Rightarrow> Some (Inr [])
      | Some (Some rs, st) \<Rightarrow>
          if st = OK then Some (Inr (map convertResult rs)) else Some (Inr []))"

section \<open>\<open>searchLocationsByDistanceAndPopularity\<close>\<close>

text \<open>
  The launched strategies run concurrently and call \<open>addUniqueResults\<close> as they complete. The
  model takes the provider's replies to the launched calls in the order of their completion.
\<close>

datatype reply =
  TextSearchReply "page list"
  | NearbySearchReply "page list"
  | FindPlaceReply "(place_result list option \<times> PlacesServiceStatus) option"

definition strategyResult :: "bool \<Rightarrow> reply \<Rightarrow> (js_error + place list) option" where
  "strategyResult loaded r =
     (case r of
        TextSearchReply pgs \<Rightarrow> textSearch loaded pgs
      | NearbySearchReply pgs \<Rightarrow> nearbySearch loaded pgs
      | FindPlaceReply fr \<Rightarrow> findPlaceFromQuery loaded fr)"

text \<open>
  One strategy: \<open>try { addUniqueResults(await ...) } catch { console.warn }\<close>. \<open>None\<close> when
  the awaited promise stays pending.
\<close>

definition runStrategy ::
    "bool \<Rightarrow> string \<Rightarrow> bounds option \<Rightarrow> accumulator \<Rightarrow> reply \<Rightarrow> accumulator option" where
  "runStrategy loaded category bnds st r =
     (case strategyResult loaded r of
        None \<Rightarrow> None
      | Some (Inl e) \<Rightarrow> Some st
      | Some (Inr places) \<Rightarrow> Some (addUniqueResults category bnds st places))"

text \<open>\<open>performSearches\<close>: \<open>Promise.all\<close> settles once every strategy has.\<close>

fun performSearches ::
    "bool \<Rightarrow> string \<Rightarrow> bounds option \<Rightarrow> accumulator \<Rightarrow> reply list \<Rightarrow> accumulator option" where
  "performSearches loaded category bnds st [] = Some st"
| "performSearches loaded category bnds st (r # rs) =
     (case runStrategy loaded category bnds st r of
        None \<Rightarrow> None
      | Some st' \<Rightarrow> performSearches loaded category bnds st' rs)"

text \<open>\<open>M\<close> is the \<open>Math\<close> object of the engine that runs the search.\<close>

definition searchLocationsByDistanceAndPopularity ::
    "math_library \<Rightarrow> bool \<Rightarrow> string \<Rightarrow> latlng \<Rightarrow> int \<Rightarrow> bounds option \<Rightarrow> reply list
      \<Rightarrow> (js_error + place list) option" where
  "searchLocationsByDistanceAndPopularity M loaded category center maxResults bnds replies =
     (if \<not> loaded then Some (Inl (Error ''Google Maps API not available''))
      else case performSearches loaded category bnds emptyAccumulator replies of
        None \<Rightarrow> None
      | Some st \<Rightarrow> Some (Inr (rankResults M center maxResults (allResults st))))"

section \<open>\<open>searchLocations\<close>: category detection and type filter\<close>

text \<open>
  A character is a UTF-16 code unit below 256. \<open>toLowerCase\<close> maps the capital letters of that
  range to their small letters.
\<close>

definition toLowerChar :: "char \<Rightarrow> char" where
  "toLowerChar c =
     (let n = (of_char c :: nat)
      in if (65 \<le> n \<and> n \<le> 90) \<or> (192 \<le> n \<and> n \<le> 222 \<and> n \<noteq> 215)
         then char_of (n + 32) else c)"

definition toLowerCase :: "string \<Rightarrow> string" where
  "toLowerCase s = map toLowerChar s"

text \<open>\<open>s.includes(sub)\<close>: \<open>sub\<close> occurs in \<open>s\<close> as a contiguous substring.\<close>

fun includesStr :: "string \<Rightarrow> string \<Rightarrow> bool" where
  "includesStr [] sub = (sub = [])"
| "includesStr (c # cs) sub = (prefix sub (c # cs) \<or> includesStr cs sub)"

text \<open>Truthiness of an optional string: defined and not empty.\<close>

definition truthy :: "string option \<Rightarrow> bool" where
  "truthy x = (case x of None \<Rightarrow> False | Some s \<Rightarrow> s \<noteq> [])"

text \<open>The value of \<open>detectedCategory\<close> after the auto-detection block.\<close>

definition detectCategory :: "string option \<Rightarrow> string \<Rightarrow> string option" where
  "detectCategory category query =
     (if \<not> truthy category then
        (let lowerQuery = toLowerCase query in
         if includesStr lowerQuery ''restaurant'' \<or> includesStr lowerQuery ''food''
            \<or> includesStr lowerQuery ''dining'' then Some ''restaurants''
         else if includesStr lowerQuery ''hotel'' \<or> includesStr lowerQuery ''lodging''
            \<or> includesStr lowerQuery ''accommodation'' then Some ''hotels''
         else if includesStr lowerQuery ''attraction'' \<or> includesStr lowerQuery ''tourist''
            \<or> includesStr lowerQuery ''museum'' then Some ''attractions''
         else if includesStr lowerQuery ''shopping'' \<or> includesStr lowerQuery ''mall''
            \<or> includesStr lowerQuery ''store'' then Some ''shopping''
         else if includesStr lowerQuery ''cafe'' \<or> includesStr lowerQuery ''coffee''
            \<or> includesStr lowerQuery ''coffee shop'' then Some ''cafes''
         else category)
      else category)"

text \<open>The value of \<open>placeType\<close> after the \<open>switch (detectedCategory)\<close>.\<close>

definition categoryPlaceType :: "string option \<Rightarrow> string option" where
  "categoryPlaceType detectedCategory =
     (if truthy detectedCategory then
        (if detectedCategory = Some ''restaurants'' then Some ''restaurant''
         else if detectedCategory = Some ''hotels'' then Some ''lodging''
         else if detectedCategory = Some ''attractions'' then Some ''tourist_attraction''
         else if detectedCategory = Some ''shopping'' then Some ''shopping_mall''
         else if detectedCategory = Some ''cafes'' then Some ''cafe''
         else None)
      else None)"

text \<open>The callback of \<open>place.types.some\<close> in the \<open>addUniqueResults\<close> of \<open>searchLocations\<close>.\<close>

definition searchLocations_isCorrectTag :: "string \<Rightarrow> string \<Rightarrow> bool" where
  "searchLocations_isCorrectTag placeType ty =
     (if placeType = ''restaurant''
        then ty = ''restaurant'' \<or> ty = ''food'' \<or> ty = ''meal_takeaway'' \<or> ty = ''meal_delivery''
      else if placeType = ''lodging'' then ty = ''lodging'' \<or> ty = ''hotel''
      else if placeType = ''tourist_attraction''
        then ty = ''tourist_attraction'' \<or> ty = ''point_of_interest''
      else if placeType = ''shopping_mall''
        then ty = ''shopping_mall'' \<or> ty = ''store'' \<or> ty = ''shopping''
      else if placeType = ''cafe'' then ty = ''cafe'' \<or> ty = ''food''
      else True)"

text \<open>The body of the \<open>forEach\<close> in the \<open>addUniqueResults\<close> of \<open>searchLocations\<close>.\<close>

definition searchLocations_addPlace :: "string option \<Rightarrow> accumulator \<Rightarrow> place \<Rightarrow> accumulator" where
  "searchLocations_addPlace placeType st p =
     (if place_id p \<noteq> [] \<and> place_id p \<notin> seenPlaceIds st then
        if (case placeType of
              None \<Rightarrow> False
            | Some pt \<Rightarrow> types p \<noteq> [] \<and> \<not> list_ex (searchLocations_isCorrectTag pt) (types p))
        then st
        else st \<lparr> seenPlaceIds := insert (place_id p) (seenPlaceIds st),
                 allResults := allResults st @ [copyPlace p] \<rparr>
      else st)"

definition searchLocations_addUniqueResults ::
    "string option \<Rightarrow> accumulator \<Rightarrow> place list \<Rightarrow> accumulator" where
  "searchLocations_addUniqueResults placeType st places =
     foldl (searchLocations_addPlace placeType) st places"

text \<open>\<open>config.app.maxSearchResults\<close>\<close>

definition maxSearchResults :: int where
  "maxSearchResults = 80"

text \<open>
  One sequential strategy of \<open>searchLocations\<close>: the awaited result is merged, a rejection is
  caught and logged.
\<close>

definition searchLocations_strategy ::
    "string option \<Rightarrow> accumulator \<Rightarrow> (js_error + place list) option \<Rightarrow> accumulator option" where
  "searchLocations_strategy placeType st res =
     (case res of
        None \<Rightarrow> None
      | Some (Inl e) \<Rightarrow> Some st
      | Some (Inr places) \<Rightarrow> Some (searchLocations_addUniqueResults placeType st places))"

text \<open>
  \<open>searchLocations\<close>. The argument \<open>bounds\<close> only enters the radius of the requests and is left
  out; \<open>textPages\<close>, \<open>nearbyPages\<close> and \<open>findReply\<close> are the provider's replies to the three
  strategies.
\<close>

definition searchLocations ::
    "bool \<Rightarrow> string \<Rightarrow> string option \<Rightarrow> latlng option \<Rightarrow> page list \<Rightarrow> page list
      \<Rightarrow> (place_result list option \<times> PlacesServiceStatus) option
      \<Rightarrow> (js_error + place list) option" where
  "searchLocations loaded query category center textPages nearbyPages findReply =
     (if \<not> loaded then Some (Inl (Error ''Google Maps API not available''))
      else
        let detectedCategory = detectCategory category query;
            placeType = categoryPlaceType detectedCategory
        in case searchLocations_strategy placeType emptyAccumulator (textSearch loaded textPages) of
             None \<Rightarrow> None
           | Some st1 \<Rightarrow>
               (case (if center \<noteq> None \<and> placeType \<noteq> None
                      then searchLocations_strategy placeType st1 (nearbySearch loaded nearbyPages)
                      else Some st1) of
                  None \<Rightarrow> None
                | Some st2 \<Rightarrow>
                    (case (if center \<noteq> None
                           then searchLocations_strategy placeType st2
                                  (findPlaceFromQuery loaded findReply)
                           else Some st2) of
                       None \<Rightarrow> None
                     | Some st3 \<Rightarrow> Some (Inr (slice0 (allResults st3) maxSearchResults)))))"

section \<open>\<open>convertToLocation\<close>\<close>

datatype location_type = restaurant | hotel | attraction | business | other

text \<open>
  The object \<open>convertToLocation\<close> returns, an instance of interface \<open>Location\<close>. The fields
  carry the prefix \<open>loc_\<close>; \<open>loc_id\<close> is \<open>id\<close>, \<open>loc_type\<close> is \<open>type\<close>.
\<close>

record display_location =
  loc_id :: string
  loc_place_id :: string
  loc_name :: string
  loc_address :: string
  loc_latitude :: real
  loc_longitude :: real
  loc_type :: location_type
  loc_rating :: "real option"
  loc_user_ratings_total :: "real option"
  loc_description :: string
  loc_photos :: "string list option"

definition convertToLocation :: "place \<Rightarrow> display_location" where
  "convertToLocation result =
     (let tys = types result;
          ty = (if ''restaurant'' \<in> set tys \<or> ''food'' \<in> set tys then restaurant
                else if ''lodging'' \<in> set tys \<or> ''hotel'' \<in> set tys then hotel
                else if ''tourist_attraction'' \<in> set tys \<or> ''point_of_interest'' \<in> set tys
                  then attraction
                else if ''establishment'' \<in> set tys \<or> ''store'' \<in> set tys then business
                else other)
      in \<lparr> loc_id = place_id result,
           loc_place_id = place_id result,
           loc_name = orElse (name result) ''Unknown Location'',
           loc_address = formatted_address result,
           loc_latitude = lat (location result),
           loc_longitude = lng (location result),
           loc_type = ty,
           loc_rating = rating result,
           loc_user_ratings_total = user_ratings_total result,
           loc_description = formatted_address result,
           loc_photos = photos result \<rparr>)"

section \<open>\<open>performSearch\<close> of the map component\<close>

text \<open>
  \<open>String.prototype.trim\<close>: white space and line terminators are removed at both ends. Among
  the code units below 256 these are tab, line feed, vertical tab, form feed, carriage return,
  space and no-break space.
\<close>

definition isWhiteSpace :: "char \<Rightarrow> bool" where
  "isWhiteSpace c = (of_char c \<in> {9, 10, 11, 12, 13, 32, 160 :: nat})"

definition trim :: "string \<Rightarrow> string" where
  "trim s = rev (dropWhile isWhiteSpace (rev (dropWhile isWhiteSpace s)))"

text \<open>\<open>detectCategoryFromQuery\<close>\<close>

definition detectCategoryFromQuery :: "string \<Rightarrow> string option" where
  "detectCategoryFromQuery query =
     (let lowerQuery = toLowerCase query in
      if includesStr lowerQuery ''restaurant'' \<or> includesStr lowerQuery ''food''
         \<or> includesStr lowerQuery ''dining'' then Some ''restaurants''
      else if includesStr lowerQuery ''hotel'' \<or> includesStr lowerQuery ''lodging''
         \<or> includesStr lowerQuery ''accommodation'' then Some ''hotels''
      else if includesStr lowerQuery ''attraction'' \<or> includesStr lowerQuery ''tourist''
         \<or> includesStr lowerQuery ''museum'' then Some ''attractions''
      else if includesStr lowerQuery ''shopping'' \<or> includesStr lowerQuery ''mall''
         \<or> includesStr lowerQuery ''store'' then Some ''shopping''
      else if includesStr lowerQuery ''cafe'' \<or> includesStr lowerQuery ''coffee''
         \<or> includesStr lowerQuery ''coffee shop'' then Some ''cafes''
      else None)"

text \<open>The component state that \<open>performSearch\<close> writes; \<open>markers\<close> stands for \<open>markersRef\<close>.\<close>

record map_component =
  searchResults :: "display_location list"
  markers :: "display_location list"
  error :: "string option"
  isLoading :: bool

text \<open>
  What \<open>performSearch\<close> reads from outside: the map instance, if created, with its centre
  and bounds; whether the SDK is loaded; the \<open>Math\<close> object of the engine; the provider's
  replies to the text search and to the strategies of the fallback search.
\<close>

record environment =
  mapInstance :: "(latlng option \<times> bounds option) option"
  sdkLoaded :: bool
  math :: math_library
  textPages :: "page list"
  fallbackReplies :: "reply list"

text \<open>A request handed to the provider.\<close>

datatype provider_call =
  TextSearchCall string | NearbySearchCall | FindPlaceCall string

text \<open>\<open>addMarkers(locations)\<close> returns at once when there is no map instance.\<close>

definition addMarkers :: "environment \<Rightarrow> display_location list \<Rightarrow> map_component \<Rightarrow> map_component" where
  "addMarkers env locations st =
     (if mapInstance env = None then st else st \<lparr> markers := locations \<rparr>)"

text \<open>The requests launched by \<open>performSearches\<close> for a category.\<close>

definition launchedCalls :: "string \<Rightarrow> provider_call list" where
  "launchedCalls category =
     [TextSearchCall category, NearbySearchCall, FindPlaceCall category,
      TextSearchCall (category @ '' near me''), TextSearchCall (''best '' @ category),
      TextSearchCall (''popular '' @ category), TextSearchCall (''top '' @ category)]"

text \<open>The lines after the search: show the converted results, or nothing.\<close>

definition showResults :: "environment \<Rightarrow> place list \<Rightarrow> map_component \<Rightarrow> map_component" where
  "showResults env apiResults st =
     (if length apiResults > 0
      then (let locations = map convertToLocation apiResults
            in addMarkers env locations (st \<lparr> searchResults := locations \<rparr>))
      else addMarkers env [] (st \<lparr> searchResults := [] \<rparr>))"

text \<open>
  \<open>performSearch\<close>: the new component state and the requests handed to the provider, or
  \<open>None\<close> when an awaited promise stays pending. The result of \<open>detectSearchType\<close> is only
  logged and is left out. A rejecting adapter call hands no request to the provider.
\<close>

definition performSearch ::
    "environment \<Rightarrow> string \<Rightarrow> map_component \<Rightarrow> (map_component \<times> provider_call list) option" where
  "performSearch env searchQuery st0 =
     (if trim searchQuery \<noteq> [] then
        (let st = st0 \<lparr> isLoading := True, error := None \<rparr>;
             searchCenter = (case mapInstance env of None \<Rightarrow> None | Some (c, b) \<Rightarrow> c);
             searchBounds = (case mapInstance env of None \<Rightarrow> None | Some (c, b) \<Rightarrow> b)
         in case searchCenter of
              None \<Rightarrow>
                Some ((addMarkers env [] (st \<lparr> searchResults := [] \<rparr>)) \<lparr> isLoading := False \<rparr>, [])
            | Some center \<Rightarrow>
                (case textSearch (sdkLoaded env) (textPages env) of
                   None \<Rightarrow> None
                 | Some (Inr apiResults) \<Rightarrow>
                     Some ((showResults env apiResults st) \<lparr> isLoading := False \<rparr>,
                           [TextSearchCall searchQuery])
                 | Some (Inl e) \<Rightarrow>
                     (let category = (case detectCategoryFromQuery searchQuery of
                                        Some c \<Rightarrow> c | None \<Rightarrow> ''establishment'')
                      in case searchLocationsByDistanceAndPopularity (math env) (sdkLoaded env) category
                                center maxSearchResults searchBounds (fallbackReplies env) of
                           None \<Rightarrow> None
                         | Some (Inr apiResults) \<Rightarrow>
                             Some ((showResults env apiResults st) \<lparr> isLoading := False \<rparr>,
                                   launchedCalls category)
                         | Some (Inl e') \<Rightarrow>
                             Some (st \<lparr> error :=
                                      Some ''Search failed. Please check your API key and try again.'',
                                      isLoading := False \<rparr>, []))))
      else
        Some ((addMarkers env [] (st0 \<lparr> searchResults := [] \<rparr>)) \<lparr> error := None \<rparr>, []))"

section \<open>Auxiliary notions for the statements\<close>


text \<open>The expression bound to \<open>normalizedDistance\<close> in \<open>calculateScore\<close>, as a function of the distance.\<close>

definition normalizedDistance :: "number \<Rightarrow> number" where
  "normalizedDistance distance = n_max (Finite 0) (n_sub (Finite 1) (n_div distance (Finite 50)))"

text \<open>A place gets past both filters of \<open>addUniqueResults\<close>.\<close>

definition passesFilters :: "string \<Rightarrow> bounds option \<Rightarrow> place \<Rightarrow> bool" where
  "passesFilters category bnds p \<longleftrightarrow>
     \<not> filteredOutByType category p \<and> isWithinBounds bnds (lat (location p)) (lng (location p))"

text \<open>
  The invariant that ties \<open>seenPlaceIds\<close> to \<open>allResults\<close>: the seen identifiers are those of
  the stored places, no two stored places share one, and the empty identifier is never seen.
\<close>

definition consistent :: "accumulator \<Rightarrow> bool" where
  "consistent st \<longleftrightarrow>
     seenPlaceIds st = place_id ` set (allResults st) \<and>
     distinct (map place_id (allResults st)) \<and> [] \<notin> seenPlaceIds st"

text \<open>Sample records for the concrete instances: a place, and the provider record behind it.\<close>

definition samplePlace :: "string \<Rightarrow> real \<Rightarrow> real \<Rightarrow> string list \<Rightarrow> real option \<Rightarrow> place" where
  "samplePlace i la lo tys r =
     \<lparr> place_id = i, formatted_address = ''1 Main St'', location = \<lparr> lat = la, lng = lo \<rparr>,
       name = ''Sample'', types = tys, rating = r, user_ratings_total = None,
       photos = Some [] \<rparr>"

definition sampleResult ::
    "string \<Rightarrow> real \<Rightarrow> real \<Rightarrow> string list \<Rightarrow> real option \<Rightarrow> place_result" where
  "sampleResult i la lo tys r =
     \<lparr> pr_place_id = Some i, pr_name = Some ''Sample'',
       pr_formatted_address = Some ''1 Main St'',
       pr_location = Some \<lparr> lat = la, lng = lo \<rparr>, pr_rating = r,
       pr_user_ratings_total = None, pr_types = Some tys, pr_photos = None \<rparr>"

section \<open>Rounding\<close>

lemma pow2_pos [simp]: "0 < pow2 k"
  by (simp add: pow2_def)

lemma pow2_nonneg [simp]: "0 \<le> pow2 k"
  by (simp add: pow2_def)

lemma pow2_0 [simp]: "pow2 0 = 1"
  by (simp add: pow2_def)

lemma pow2_add: "pow2 (a + b) = pow2 a * pow2 b"
  by (simp add: pow2_def powr_add)

lemma pow2_diff: "pow2 (a - b) = pow2 a / pow2 b"
  by (simp add: pow2_def powr_diff)

lemma pow2_mono: "a \<le> b \<Longrightarrow> pow2 a \<le> pow2 b"
  by (simp add: pow2_def)

lemma pow2_le_iff [simp]: "pow2 a \<le> pow2 b \<longleftrightarrow> a \<le> b"
  by (simp add: pow2_def)

lemma pow2_less_iff [simp]: "pow2 a < pow2 b \<longleftrightarrow> a < b"
  by (simp add: pow2_def)

lemma pow2_nat: "pow2 (int n) = 2 ^ n"
  by (simp add: pow2_def powr_realpow)

lemma pow2_neg_nat: "pow2 (- int n) = 1 / 2 ^ n"
  by (simp add: pow2_def powr_minus powr_realpow inverse_eq_divide)

lemma pow2_int: "0 \<le> k \<Longrightarrow> \<exists>n::int. pow2 k = of_int n"
proof -
  assume "0 \<le> k"
  then have "pow2 k = 2 ^ nat k" using pow2_nat[of "nat k"] by simp
  also have "\<dots> = of_int (2 ^ nat k)" by simp
  finally show ?thesis by blast
qed

lemma rte_close: "\<bar>x - of_int (roundTiesToEven x)\<bar> \<le> 1 / 2"
  unfolding roundTiesToEven_def Let_def by (auto simp: abs_if) linarith+

lemma rte_mono: assumes "x \<le> y" shows "roundTiesToEven x \<le> roundTiesToEven y"
proof (rule ccontr)
  assume "\<not> ?thesis"
  then have "roundTiesToEven y + 1 \<le> roundTiesToEven x" by simp
  then have "of_int (roundTiesToEven y) + (1::real) \<le> of_int (roundTiesToEven x)"
    by (metis of_int_1 of_int_add of_int_le_iff)
  moreover have "of_int (roundTiesToEven x) - 1 / 2 \<le> x" using rte_close[of x] by linarith
  moreover have "y \<le> of_int (roundTiesToEven y) + 1 / 2" using rte_close[of y] by linarith
  ultimately have "y \<le> x" by linarith
  with assms have "x = y" by simp
  with \<open>\<not> ?thesis\<close> show False by simp
qed

lemma rte_int [simp]: "roundTiesToEven (of_int n) = n"
  by (simp add: roundTiesToEven_def)

lemma rte_0 [simp]: "roundTiesToEven 0 = 0"
  using rte_int[of 0] by simp

lemma rte_nonneg: "0 \<le> x \<Longrightarrow> 0 \<le> roundTiesToEven x"
  using rte_mono[of 0 x] by simp

lemma rte_near: "of_int m - 1 / 2 < x \<Longrightarrow> x < of_int m + 1 / 2 \<Longrightarrow> roundTiesToEven x = m"
proof -
  assume a: "of_int m - 1 / 2 < x" "x < of_int m + 1 / 2"
  let ?r = "roundTiesToEven x"
  have "\<bar>x - of_int ?r\<bar> \<le> 1 / 2" by (rule rte_close)
  with a have "\<bar>(of_int ?r :: real) - of_int m\<bar> < 1" by linarith
  then have "\<bar>?r - m\<bar> < 1" by (metis of_int_abs of_int_diff of_int_less_1_iff)
  then show ?thesis by simp
qed

lemma pow2_mult: "a + b = c \<Longrightarrow> pow2 a * pow2 b = pow2 c"
  using pow2_add[of a b] by simp

lemma pow2_divide: "a - b = c \<Longrightarrow> pow2 a / pow2 b = pow2 c"
  using pow2_diff[of a b] by simp

lemma floor_log2_bounds:
  assumes "0 < x"
  shows "pow2 \<lfloor>log 2 x\<rfloor> \<le> x" and "x < pow2 (\<lfloor>log 2 x\<rfloor> + 1)"
proof -
  have "2 powr real_of_int \<lfloor>log 2 x\<rfloor> \<le> x \<and> x < 2 powr (real_of_int \<lfloor>log 2 x\<rfloor> + 1)"
    using floor_log_eq_powr_iff[of x 2 "\<lfloor>log 2 x\<rfloor>"] assms by simp
  then show "pow2 \<lfloor>log 2 x\<rfloor> \<le> x" and "x < pow2 (\<lfloor>log 2 x\<rfloor> + 1)"
    by (simp_all add: pow2_def)
qed

lemma floor_log2_eq:
  assumes "pow2 e \<le> x" "x < pow2 (e + 1)"
  shows "\<lfloor>log 2 x\<rfloor> = e"
proof -
  have "0 < x" using assms(1) pow2_pos[of e] by linarith
  then show ?thesis
    using floor_log_eq_powr_iff[of x 2 e] assms by (simp add: pow2_def)
qed

lemma exponentOf_abs [simp]: "exponentOf \<bar>x\<bar> = exponentOf x"
  by (simp add: exponentOf_def)

lemma exponentOf_minus [simp]: "exponentOf (- x) = exponentOf x"
  by (simp add: exponentOf_def)

lemma exponentOf_ge [simp]: "- 1022 \<le> exponentOf x"
  by (simp add: exponentOf_def)

lemma exponentOf_upper: "0 < x \<Longrightarrow> x < pow2 (exponentOf x + 1)"
proof -
  assume x: "0 < x"
  have "x < pow2 (\<lfloor>log 2 x\<rfloor> + 1)" using x by (rule floor_log2_bounds)
  also have "\<dots> \<le> pow2 (exponentOf x + 1)" using x by (simp add: exponentOf_def)
  finally show ?thesis .
qed

lemma exponentOf_eq:
  assumes "pow2 e \<le> \<bar>x\<bar>" "\<bar>x\<bar> < pow2 (e + 1)" "- 1022 \<le> e"
  shows "exponentOf x = e"
  using floor_log2_eq[OF assms(1,2)] assms(3) by (simp add: exponentOf_def)

lemma exponentOf_small:
  assumes "\<bar>x\<bar> < pow2 (- 1022)" "x \<noteq> 0"
  shows "exponentOf x = - 1022"
proof -
  have p: "0 < \<bar>x\<bar>" using assms(2) by simp
  have "pow2 \<lfloor>log 2 \<bar>x\<bar>\<rfloor> \<le> \<bar>x\<bar>" using p by (rule floor_log2_bounds)
  with assms(1) have "pow2 \<lfloor>log 2 \<bar>x\<bar>\<rfloor> < pow2 (- 1022)" by linarith
  then show ?thesis by (simp add: exponentOf_def)
qed

lemma exponentOf_lower:
  assumes "pow2 (- 1022) \<le> x"
  shows "pow2 (exponentOf x) \<le> x"
proof -
  have x: "0 < x" using assms pow2_pos[of "- 1022"] by linarith
  have "x < pow2 (\<lfloor>log 2 x\<rfloor> + 1)" using x by (rule floor_log2_bounds)
  with assms have "pow2 (- 1022) < pow2 (\<lfloor>log 2 x\<rfloor> + 1)" by linarith
  then have "- 1022 \<le> \<lfloor>log 2 x\<rfloor>" by simp
  then have "exponentOf x = \<lfloor>log 2 x\<rfloor>" using x by (simp add: exponentOf_def)
  then show ?thesis using floor_log2_bounds(1)[OF x] by simp
qed

lemma exponentOf_mono:
  assumes "0 < x" "x \<le> y"
  shows "exponentOf x \<le> exponentOf y"
proof -
  have "log 2 x \<le> log 2 y" using assms by simp
  then have "\<lfloor>log 2 x\<rfloor> \<le> \<lfloor>log 2 y\<rfloor>" by (rule floor_mono)
  then show ?thesis using assms by (simp add: exponentOf_def)
qed

lemma roundToDouble_0 [simp]: "roundToDouble 0 = 0"
  by (simp add: roundToDouble_def)

lemma roundToDouble_minus: "roundToDouble (- x) = - roundToDouble x"
  by (simp add: roundToDouble_def Let_def sgn_minus)

lemma roundToDouble_pos:
  "0 < x \<Longrightarrow> roundToDouble x =
     of_int (roundTiesToEven (x / pow2 (exponentOf x - 52))) * pow2 (exponentOf x - 52)"
  by (simp add: roundToDouble_def Let_def)

lemma roundToDouble_nonneg: "0 \<le> x \<Longrightarrow> 0 \<le> roundToDouble x"
proof (cases "x = 0")
  case True then show ?thesis by simp
next
  case False
  assume "0 \<le> x"
  with False have x: "0 < x" by simp
  have "0 \<le> roundTiesToEven (x / pow2 (exponentOf x - 52))"
    using x by (intro rte_nonneg) simp
  then show ?thesis using x by (simp add: roundToDouble_pos)
qed

lemma pow2_53: "pow2 53 = of_int (2 ^ 53)"
  using pow2_nat[of 53] by simp

lemma pow2_52: "pow2 52 = of_int (2 ^ 52)"
  using pow2_nat[of 52] by simp

lemma roundToDouble_upper:
  assumes "0 < x"
  shows "roundToDouble x \<le> pow2 (exponentOf x + 1)"
proof -
  let ?e = "exponentOf x"
  let ?u = "pow2 (?e - 52)"
  have "x / ?u \<le> pow2 (?e + 1) / ?u"
    using exponentOf_upper[OF assms] by (simp add: divide_right_mono)
  also have "\<dots> = pow2 53" by (rule pow2_divide) simp
  finally have "roundTiesToEven (x / ?u) \<le> roundTiesToEven (pow2 53)" by (rule rte_mono)
  then have "roundTiesToEven (x / ?u) \<le> 2 ^ 53" by (simp only: pow2_53 rte_int)
  then have "(of_int (roundTiesToEven (x / ?u)) :: real) \<le> of_int (2 ^ 53)"
    by (simp only: of_int_le_iff)
  then have "of_int (roundTiesToEven (x / ?u)) * ?u \<le> pow2 53 * ?u"
    unfolding pow2_53 by (intro mult_right_mono) simp_all
  also have "pow2 53 * ?u = pow2 (?e + 1)" by (rule pow2_mult) simp
  finally show ?thesis using assms by (simp add: roundToDouble_pos)
qed

lemma roundToDouble_lower:
  assumes "pow2 (- 1022) \<le> x"
  shows "pow2 (exponentOf x) \<le> roundToDouble x"
proof -
  have x: "0 < x" using assms pow2_pos[of "- 1022"] by linarith
  let ?e = "exponentOf x"
  let ?u = "pow2 (?e - 52)"
  have "pow2 52 = pow2 ?e / ?u" by (rule pow2_divide[symmetric]) simp
  also have "\<dots> \<le> x / ?u"
    using exponentOf_lower[OF assms] by (simp add: divide_right_mono)
  finally have "roundTiesToEven (pow2 52) \<le> roundTiesToEven (x / ?u)" by (rule rte_mono)
  then have "2 ^ 52 \<le> roundTiesToEven (x / ?u)" by (simp only: pow2_52 rte_int)
  then have "(of_int (2 ^ 52) :: real) \<le> of_int (roundTiesToEven (x / ?u))"
    by (simp only: of_int_le_iff)
  then have "pow2 52 * ?u \<le> of_int (roundTiesToEven (x / ?u)) * ?u"
    unfolding pow2_52 by (intro mult_right_mono) simp_all
  moreover have "pow2 52 * ?u = pow2 ?e" by (rule pow2_mult) simp
  ultimately show ?thesis using x by (simp add: roundToDouble_pos)
qed

lemma roundToDouble_mono_pos:
  assumes "0 < x" "x \<le> y"
  shows "roundToDouble x \<le> roundToDouble y"
proof -
  have y: "0 < y" using assms by linarith
  have le: "exponentOf x \<le> exponentOf y" using assms by (rule exponentOf_mono)
  show ?thesis
  proof (cases "exponentOf x = exponentOf y")
    case True
    have "x / pow2 (exponentOf y - 52) \<le> y / pow2 (exponentOf y - 52)"
      using assms(2) by (simp add: divide_right_mono)
    then have "roundTiesToEven (x / pow2 (exponentOf y - 52))
        \<le> roundTiesToEven (y / pow2 (exponentOf y - 52))" by (rule rte_mono)
    then have "(of_int (roundTiesToEven (x / pow2 (exponentOf y - 52))) :: real)
        \<le> of_int (roundTiesToEven (y / pow2 (exponentOf y - 52)))" by (simp only: of_int_le_iff)
    then have "of_int (roundTiesToEven (x / pow2 (exponentOf y - 52))) * pow2 (exponentOf y - 52)
        \<le> of_int (roundTiesToEven (y / pow2 (exponentOf y - 52))) * pow2 (exponentOf y - 52)"
      by (intro mult_right_mono) simp_all
    then show ?thesis using assms(1) y True by (simp add: roundToDouble_pos)
  next
    case False
    with le have lt: "exponentOf x + 1 \<le> exponentOf y" by simp
    then have "- 1022 < exponentOf y" using exponentOf_ge[of x] by linarith
    then have "\<not> \<bar>y\<bar> < pow2 (- 1022)" using exponentOf_small[of y] y by auto
    then have "pow2 (- 1022) \<le> y" using y by simp
    then have "pow2 (exponentOf y) \<le> roundToDouble y" by (rule roundToDouble_lower)
    moreover have "roundToDouble x \<le> pow2 (exponentOf x + 1)"
      using assms(1) by (rule roundToDouble_upper)
    moreover have "pow2 (exponentOf x + 1) \<le> pow2 (exponentOf y)" using lt by simp
    ultimately show ?thesis by linarith
  qed
qed

lemma roundToDouble_mono:
  assumes "x \<le> y"
  shows "roundToDouble x \<le> roundToDouble y"
proof -
  consider "0 < x" | "x \<le> 0" "0 \<le> y" | "y < 0" by linarith
  then show ?thesis
  proof cases
    case 1
    then show ?thesis using assms by (rule roundToDouble_mono_pos)
  next
    case 2
    have "0 \<le> roundToDouble (- x)" using 2(1) by (intro roundToDouble_nonneg) simp
    then have "roundToDouble x \<le> 0" by (simp add: roundToDouble_minus)
    moreover have "0 \<le> roundToDouble y" using 2(2) by (rule roundToDouble_nonneg)
    ultimately show ?thesis by linarith
  next
    case 3
    have "roundToDouble (- y) \<le> roundToDouble (- x)"
      using 3 assms by (intro roundToDouble_mono_pos) simp_all
    then show ?thesis by (simp add: roundToDouble_minus)
  qed
qed

lemma pow2_neq0 [simp]: "pow2 k \<noteq> 0"
  using pow2_pos[of k] by linarith

lemma roundToDouble_near:
  assumes "pow2 e \<le> x" "x < pow2 (e + 1)" "- 1022 \<le> e"
    and "of_int m - 1 / 2 < x / pow2 (e - 52)" "x / pow2 (e - 52) < of_int m + 1 / 2"
  shows "roundToDouble x = of_int m * pow2 (e - 52)"
proof -
  have x: "0 < x" using assms(1) pow2_pos[of e] by linarith
  have "exponentOf x = e" using assms(1,2,3) x by (intro exponentOf_eq) simp_all
  moreover have "roundTiesToEven (x / pow2 (e - 52)) = m" using assms(4,5) by (rule rte_near)
  ultimately show ?thesis using x by (simp add: roundToDouble_pos)
qed

lemma roundToDouble_exact:
  assumes "pow2 e \<le> x" "x < pow2 (e + 1)" "- 1022 \<le> e" "x / pow2 (e - 52) = of_int m"
  shows "roundToDouble x = x"
proof -
  have "roundToDouble x = of_int m * pow2 (e - 52)"
    using assms(1,2,3) by (rule roundToDouble_near) (simp_all add: assms(4))
  also have "\<dots> = x" using assms(4)[symmetric] by simp
  finally show ?thesis .
qed

lemma roundToDouble_pow2:
  assumes "- 1074 \<le> k"
  shows "roundToDouble (pow2 k) = pow2 k"
proof (cases "- 1022 \<le> k")
  case True
  have "pow2 k / pow2 (k - 52) = pow2 52" by (rule pow2_divide) simp
  then have "pow2 k / pow2 (k - 52) = of_int (2 ^ 52)" by (simp only: pow2_52)
  then show ?thesis using True by (intro roundToDouble_exact[of k]) simp_all
next
  case False
  then have lt: "k < - 1022" by simp
  have p: "0 < pow2 k" by simp
  have e: "exponentOf (pow2 k) = - 1022" using lt by (intro exponentOf_small) simp_all
  have "0 \<le> k + 1074" using assms by simp
  then obtain n :: int where n: "pow2 (k + 1074) = of_int n" using pow2_int by blast
  have "pow2 k / pow2 (- 1074) = pow2 (k + 1074)" by (rule pow2_divide) simp
  then have q: "pow2 k / pow2 (- 1074) = of_int n" using n by simp
  have "roundToDouble (pow2 k) = of_int n * pow2 (- 1074)"
    using p by (simp add: roundToDouble_pos e q)
  also have "\<dots> = pow2 k" using q[symmetric] by simp
  finally show ?thesis .
qed

lemma roundToDouble_1 [simp]: "roundToDouble 1 = 1"
  using roundToDouble_pow2[of 0] by simp

lemma roundToDouble_tiny:
  assumes "\<bar>x\<bar> < pow2 (- 1075)"
  shows "roundToDouble x = 0"
proof (cases "x = 0")
  case True then show ?thesis by simp
next
  case False
  have "pow2 (- 1075) \<le> pow2 (- 1022)" by simp
  with assms have "\<bar>x\<bar> < pow2 (- 1022)" by linarith
  then have e: "exponentOf x = - 1022" using False by (rule exponentOf_small)
  have "pow2 (- 1075) / pow2 (- 1074) = pow2 (- 1)" by (rule pow2_divide) simp
  also have "pow2 (- 1) = 1 / 2" using pow2_neg_nat[of 1] by simp
  finally have h: "pow2 (- 1075) / pow2 (- 1074) = 1 / 2" .
  have "\<bar>x\<bar> / pow2 (- 1074) < pow2 (- 1075) / pow2 (- 1074)"
    using assms by (simp add: divide_strict_right_mono)
  then have b: "\<bar>x\<bar> / pow2 (- 1074) < of_int 0 + 1 / 2" using h by simp
  have "0 \<le> \<bar>x\<bar> / pow2 (- 1074)" by simp
  then have a: "of_int 0 - 1 / 2 < \<bar>x\<bar> / pow2 (- 1074)" by linarith
  have "roundTiesToEven (\<bar>x\<bar> / pow2 (- 1074)) = 0"
    using a b by (rule rte_near)
  then show ?thesis by (simp add: roundToDouble_def Let_def e)
qed


lemma roundToDouble_abs: "\<bar>roundToDouble x\<bar> = roundToDouble \<bar>x\<bar>"
proof (cases "0 \<le> x")
  case True
  then show ?thesis using roundToDouble_nonneg[of x] by simp
next
  case False
  then have "0 \<le> roundToDouble (- x)" by (intro roundToDouble_nonneg) simp
  then show ?thesis using False by (simp add: roundToDouble_minus)
qed

lemma roundToDouble_bound:
  assumes "\<bar>x\<bar> \<le> pow2 k" "- 1074 \<le> k"
  shows "\<bar>roundToDouble x\<bar> \<le> pow2 k"
proof -
  have "roundToDouble \<bar>x\<bar> \<le> roundToDouble (pow2 k)" using assms(1) by (rule roundToDouble_mono)
  then show ?thesis using roundToDouble_pow2[OF assms(2)] by (simp add: roundToDouble_abs)
qed

lemma round64_not_NaN [simp]: "round64 x \<noteq> NaN"
  by (simp add: round64_def Let_def)

lemma round64_0 [simp]: "round64 0 = Finite 0"
  by (simp add: round64_def)

lemma pow2_1024: "pow2 1024 = 2 ^ 1024"
  using pow2_nat[of 1024] by simp

lemma round64_finite:
  assumes "\<bar>x\<bar> \<le> pow2 k" "- 1074 \<le> k" "k < 1024"
  shows "round64 x = Finite (roundToDouble x)"
proof -
  have "\<bar>roundToDouble x\<bar> \<le> pow2 k" using assms(1,2) by (rule roundToDouble_bound)
  also have "pow2 k < pow2 1024" using assms(3) by simp
  finally have "\<bar>roundToDouble x\<bar> < 2 ^ 1024" by (simp only: pow2_1024)
  then show ?thesis by (simp add: round64_def Let_def)
qed

lemma round64_minus: "round64 (- x) = n_neg (round64 x)"
  by (cases "x = 0") (auto simp: round64_def Let_def roundToDouble_minus n_neg_def)

lemma round64_cases:
  obtains (fin) "round64 x = Finite (roundToDouble x)" "\<bar>roundToDouble x\<bar> < 2 ^ 1024"
  | (pos) "round64 x = PosInf" "0 < x" "2 ^ 1024 \<le> roundToDouble x"
  | (neg) "round64 x = NegInf" "x < 0" "roundToDouble x \<le> - (2 ^ 1024)"
proof (cases "2 ^ 1024 \<le> \<bar>roundToDouble x\<bar>")
  case False
  then show ?thesis using fin by (simp add: round64_def Let_def)
next
  case True
  then have nz: "x \<noteq> 0" by auto
  show ?thesis
  proof (cases "0 < x")
    case xp: True
    then have "0 \<le> roundToDouble x" by (intro roundToDouble_nonneg) simp
    with True xp show ?thesis using pos by (simp add: round64_def Let_def)
  next
    case xn: False
    with nz have x: "x < 0" by simp
    then have "0 \<le> roundToDouble (- x)" by (intro roundToDouble_nonneg) simp
    then have "roundToDouble x \<le> 0" by (simp add: roundToDouble_minus)
    with True x show ?thesis using neg by (simp add: round64_def Let_def)
  qed
qed

lemma round64_mono:
  assumes "x \<le> y"
  shows "numLe (round64 x) (round64 y)"
proof -
  have m: "roundToDouble x \<le> roundToDouble y" using assms by (rule roundToDouble_mono)
  show ?thesis
  proof (cases x rule: round64_cases)
    case fin
    show ?thesis
    proof (cases y rule: round64_cases)
      case fin2: fin
      then show ?thesis using fin m by (simp add: numLe_def)
    next
      case pos
      then show ?thesis using fin by (simp add: numLe_def)
    next
      case neg
      then show ?thesis using fin m by (simp add: numLe_def)
    qed
  next
    case pos
    then have "2 ^ 1024 \<le> roundToDouble y" "0 < y" using m assms by linarith+
    then have "round64 y = PosInf"
      by (cases y rule: round64_cases) simp_all
    then show ?thesis using pos by (simp add: numLe_def)
  next
    case neg
    then show ?thesis
      by (cases y rule: round64_cases) (simp_all add: numLe_def)
  qed
qed


lemma round64_nonneg: "0 \<le> x \<Longrightarrow> nonNegative (round64 x)"
  using round64_mono[of 0 x] by (simp add: nonNegative_def)


section \<open>Arithmetic on numbers\<close>

lemma n_neg_simps [simp]:
  "n_neg (Finite r) = Finite (- r)" "n_neg PosInf = NegInf" "n_neg NegInf = PosInf" "n_neg NaN = NaN"
  by (simp_all add: n_neg_def)


lemma n_neg_eq_NaN [simp]: "n_neg x = NaN \<longleftrightarrow> x = NaN"
  by (cases x) simp_all

lemma signOf_simps [simp]:
  "signOf (Finite r) = sgn r" "signOf PosInf = 1" "signOf NegInf = - 1" "signOf NaN = 0"
  by (simp_all add: signOf_def)

lemma signOf_neg [simp]: "signOf (n_neg x) = - signOf x"
  by (cases x) (simp_all add: sgn_minus)

lemma n_mul_Finite [simp]: "n_mul (Finite a) (Finite b) = round64 (a * b)"
  by (simp add: n_mul_def)

lemma n_mul_NaN [simp]: "n_mul NaN y = NaN" "n_mul x NaN = NaN"
  by (cases x; simp add: n_mul_def)+





lemma n_div_Finite [simp]: "b \<noteq> 0 \<Longrightarrow> n_div (Finite a) (Finite b) = round64 (a / b)"
  by (simp add: n_div_def)

lemma n_div_simps [simp]:
  "0 < c \<Longrightarrow> n_div PosInf (Finite c) = PosInf"
  "0 < c \<Longrightarrow> n_div NegInf (Finite c) = NegInf"
  "n_div NaN y = NaN"
  by (simp_all add: n_div_def)


lemma n_add_Finite [simp]: "n_add (Finite a) (Finite b) = round64 (a + b)"
  by (simp add: n_add_def)

lemma n_add_NaN [simp]: "n_add NaN y = NaN" "n_add x NaN = NaN"
  by (cases x; simp add: n_add_def)+

lemma n_add_inf [simp]:
  "n_add (Finite a) PosInf = PosInf" "n_add (Finite a) NegInf = NegInf"
  by (simp_all add: n_add_def)

lemma n_sub_Finite [simp]: "n_sub (Finite a) (Finite b) = round64 (a - b)"
  by (simp add: n_sub_def)

lemma n_sub_NaN [simp]: "n_sub x NaN = NaN" "n_sub NaN y = NaN"
  by (simp_all add: n_sub_def)


lemma numLe_simps [simp]:
  "numLe (Finite a) (Finite b) \<longleftrightarrow> a \<le> b"
  "\<not> numLe NaN y" "\<not> numLe x NaN"
  "numLe NegInf y \<longleftrightarrow> y \<noteq> NaN"
  "numLe x PosInf \<longleftrightarrow> x \<noteq> NaN"
  "\<not> numLe (Finite a) NegInf" "\<not> numLe PosInf (Finite b)" "\<not> numLe PosInf NegInf"
  by (cases x; cases y; simp add: numLe_def)+



lemma numLe_antisym: "numLe x y \<Longrightarrow> numLe y x \<Longrightarrow> x = y"
  by (cases x; cases y) simp_all


lemma nonNegative_simps [simp]:
  "nonNegative (Finite r) \<longleftrightarrow> 0 \<le> r" "nonNegative PosInf" "\<not> nonNegative NegInf" "\<not> nonNegative NaN"
  by (simp_all add: nonNegative_def)

lemma numLe_n_neg: "numLe x y \<Longrightarrow> numLe (n_neg y) (n_neg x)"
  by (cases x; cases y) simp_all

lemma numLe_n_div: "0 < c \<Longrightarrow> numLe x y \<Longrightarrow> numLe (n_div x (Finite c)) (n_div y (Finite c))"
  by (cases x; cases y) (simp_all add: round64_mono divide_right_mono)

lemma numLe_n_add: "numLe x y \<Longrightarrow> numLe (n_add (Finite c) x) (n_add (Finite c) y)"
  by (cases x; cases y) (simp_all add: round64_mono)

lemma numLe_n_sub: "numLe x y \<Longrightarrow> numLe (n_sub (Finite c) y) (n_sub (Finite c) x)"
  unfolding n_sub_def by (intro numLe_n_add numLe_n_neg)

lemma n_max_simps [simp]: "n_max NaN y = NaN" "n_max x NaN = NaN"
  by (simp_all add: n_max_def)

lemma numLe_n_max: "numLe x y \<Longrightarrow> numLe (n_max (Finite c) x) (n_max (Finite c) y)"
  by (cases x; cases y) (auto simp: n_max_def)

lemma n_max_lower: "x \<noteq> NaN \<Longrightarrow> numLe (Finite c) (n_max (Finite c) x)"
  by (cases x) (auto simp: n_max_def)

section \<open>The \<open>Math\<close> functions and the distance\<close>

lemma conformingD:
  assumes "conforming M"
  shows sin_odd: "Math_sin M (n_neg x) = n_neg (Math_sin M x)"
    and sin_zero: "Math_sin M (Finite 0) = Finite 0"
    and sin_inf: "Math_sin M PosInf = NaN"
    and sin_NaN: "Math_sin M NaN = NaN"
    and sin_finite: "\<exists>s. Math_sin M (Finite r) = Finite s \<and> \<bar>s\<bar> \<le> 1
            \<and> (\<forall>k. - 1074 \<le> k \<and> \<bar>r\<bar> \<le> pow2 k \<longrightarrow> \<bar>s\<bar> \<le> pow2 k)"
    and cos_inf: "Math_cos M PosInf = NaN" "Math_cos M NegInf = NaN"
    and cos_NaN: "Math_cos M NaN = NaN"
    and cos_zero: "Math_cos M (Finite 0) = Finite 1"
    and cos_finite: "\<exists>c. Math_cos M (Finite r) = Finite c \<and> \<bar>c\<bar> \<le> 1"
    and sqrt_NaN: "Math_sqrt M NaN = NaN"
    and sqrt_inf: "Math_sqrt M NegInf = NaN" "Math_sqrt M PosInf = PosInf"
    and sqrt_neg: "r < 0 \<Longrightarrow> Math_sqrt M (Finite r) = NaN"
    and sqrt_zero: "Math_sqrt M (Finite 0) = Finite 0"
    and sqrt_one: "Math_sqrt M (Finite 1) = Finite 1"
    and sqrt_finite: "0 \<le> r \<Longrightarrow> nonNegative (Math_sqrt M (Finite r))"
    and atan2_NaN: "Math_atan2 M NaN x = NaN" "Math_atan2 M x NaN = NaN"
    and atan2_zero: "0 < r \<Longrightarrow> Math_atan2 M (Finite 0) (Finite r) = Finite 0"
    and atan2_nonNegative: "nonNegative y \<Longrightarrow> nonNegative x \<Longrightarrow>
            \<exists>t. 0 \<le> t \<and> Math_atan2 M y x = Finite t"
  using assms unfolding conforming_def by blast+

lemma sin_neg_inf: "conforming M \<Longrightarrow> Math_sin M NegInf = NaN"
  using sin_odd[of M PosInf] sin_inf[of M] by simp

lemma sqrt_cases:
  assumes "conforming M"
  shows "Math_sqrt M x = NaN \<or> nonNegative (Math_sqrt M x)"
proof (cases x)
  case (Finite r)
  show ?thesis
  proof (cases "r < 0")
    case True
    then show ?thesis using sqrt_neg[OF assms] Finite by simp
  next
    case False
    then show ?thesis using sqrt_finite[OF assms, of r] Finite by simp
  qed
qed (simp_all add: sqrt_NaN[OF assms] sqrt_inf[OF assms])

lemma atan2_cases:
  assumes "conforming M"
    and "y = NaN \<or> nonNegative y" "x = NaN \<or> nonNegative x"
  shows "Math_atan2 M y x = NaN \<or> (\<exists>t. 0 \<le> t \<and> Math_atan2 M y x = Finite t)"
  using assms(2,3) atan2_NaN[OF assms(1)] atan2_nonNegative[OF assms(1), of y x] by auto

lemma n_mul_nonNegative:
  "0 < c \<Longrightarrow> nonNegative x \<Longrightarrow> nonNegative (n_mul (Finite c) x)"
  by (cases x) (simp_all add: round64_nonneg n_mul_def)


lemma calculateDistance_range:
  assumes "conforming M"
  shows "calculateDistance M lat1 lng1 lat2 lng2 = NaN
       \<or> nonNegative (calculateDistance M lat1 lng1 lat2 lng2)"
proof -
  define a where "a = n_add
                (n_mul (Math_sin M (n_div (n_div (n_mul (n_sub (Finite lat2) (Finite lat1)) Math_PI) (Finite 180)) (Finite 2)))
                       (Math_sin M (n_div (n_div (n_mul (n_sub (Finite lat2) (Finite lat1)) Math_PI) (Finite 180)) (Finite 2))))
                (n_mul
                  (n_mul
                    (n_mul (Math_cos M (n_div (n_mul (Finite lat1) Math_PI) (Finite 180)))
                           (Math_cos M (n_div (n_mul (Finite lat2) Math_PI) (Finite 180))))
                    (Math_sin M (n_div (n_div (n_mul (n_sub (Finite lng2) (Finite lng1)) Math_PI) (Finite 180)) (Finite 2))))
                  (Math_sin M (n_div (n_div (n_mul (n_sub (Finite lng2) (Finite lng1)) Math_PI) (Finite 180)) (Finite 2))))"
  have d: "calculateDistance M lat1 lng1 lat2 lng2 =
      n_mul (Finite 6371) (n_mul (Finite 2)
        (Math_atan2 M (Math_sqrt M a) (Math_sqrt M (n_sub (Finite 1) a))))"
    by (simp add: calculateDistance_def Let_def a_def)
  have "Math_atan2 M (Math_sqrt M a) (Math_sqrt M (n_sub (Finite 1) a)) = NaN
      \<or> (\<exists>t. 0 \<le> t \<and> Math_atan2 M (Math_sqrt M a) (Math_sqrt M (n_sub (Finite 1) a)) = Finite t)"
    using atan2_cases[OF assms sqrt_cases[OF assms] sqrt_cases[OF assms]] by blast
  then show ?thesis
  proof
    assume "Math_atan2 M (Math_sqrt M a) (Math_sqrt M (n_sub (Finite 1) a)) = NaN"
    then show ?thesis unfolding d by simp
  next
    assume "\<exists>t. 0 \<le> t \<and> Math_atan2 M (Math_sqrt M a) (Math_sqrt M (n_sub (Finite 1) a)) = Finite t"
    then obtain t where t: "0 \<le> t"
      "Math_atan2 M (Math_sqrt M a) (Math_sqrt M (n_sub (Finite 1) a)) = Finite t" by blast
    have "nonNegative (n_mul (Finite 2) (Finite t))" using t(1) by (simp add: round64_nonneg)
    then have "nonNegative (n_mul (Finite 6371) (n_mul (Finite 2) (Finite t)))"
      by (rule n_mul_nonNegative[rotated]) simp
    then show ?thesis unfolding d t(2) by blast
  qed
qed

lemma pow2_numeral: "pow2 (numeral n) = 2 ^ numeral n"
  using pow2_nat[of "numeral n"] by simp

lemma pow2_neg_numeral: "pow2 (- numeral n) = 1 / 2 ^ numeral n"
  using pow2_neg_nat[of "numeral n"] by simp

lemma pow2_1: "pow2 1 = 2"
  using pow2_nat[of 1] by simp

lemma pow2_times4: "pow2 k * 4 = pow2 (k + 2)"
proof -
  have "pow2 k * pow2 2 = pow2 (k + 2)" by (rule pow2_mult) simp
  then show ?thesis by (simp add: pow2_numeral)
qed

lemma round64_1 [simp]: "round64 1 = Finite 1"
  by (simp add: round64_def)

lemma n_add_eq_NaN [simp]: "n_add (Finite c) x = NaN \<longleftrightarrow> x = NaN"
  by (cases x) simp_all

lemma n_sub_eq_NaN [simp]: "n_sub (Finite c) x = NaN \<longleftrightarrow> x = NaN"
  by (simp add: n_sub_def)

lemma n_div_eq_NaN [simp]: "0 < c \<Longrightarrow> n_div x (Finite c) = NaN \<longleftrightarrow> x = NaN"
  by (cases x) simp_all

lemma n_max_eq_NaN [simp]: "n_max (Finite c) x = NaN \<longleftrightarrow> x = NaN"
  by (cases x) (simp_all add: n_max_def)

lemma round64_le_pow2:
  assumes "\<bar>x\<bar> \<le> pow2 k" "- 1074 \<le> k" "k < 1024"
  shows "\<exists>r. round64 x = Finite r \<and> \<bar>r\<bar> \<le> pow2 k"
  using round64_finite[OF assms] roundToDouble_bound[OF assms(1,2)] by blast

lemma round64_unit:
  assumes "0 \<le> x" "x \<le> 1"
  shows "\<exists>r. round64 x = Finite r \<and> 0 \<le> r \<and> r \<le> 1"
proof -
  have "\<bar>x\<bar> \<le> pow2 0" using assms by simp
  then have f: "round64 x = Finite (roundToDouble x)" by (rule round64_finite) simp_all
  have "roundToDouble x \<le> roundToDouble 1" using assms(2) by (rule roundToDouble_mono)
  then show ?thesis using f roundToDouble_nonneg[OF assms(1)] by simp
qed

lemma Math_PI_bound: "Math_PI = Finite p \<Longrightarrow> \<bar>p\<bar> \<le> 4"
  by (auto simp: Math_PI_def)

lemma times_PI_bound:
  assumes "\<bar>x\<bar> \<le> pow2 k" "- 1076 \<le> k" "k < 1022"
  shows "\<exists>r. n_mul (Finite x) Math_PI = Finite r \<and> \<bar>r\<bar> \<le> pow2 (k + 2)"
proof -
  let ?p = "884279719003555 / 281474976710656 :: real"
  have "\<bar>x * ?p\<bar> = \<bar>x\<bar> * ?p" by (simp add: abs_mult)
  also have "\<dots> \<le> pow2 k * 4" using assms(1) by (intro mult_mono) simp_all
  finally have "\<bar>x * ?p\<bar> \<le> pow2 (k + 2)" by (simp only: pow2_times4)
  then show ?thesis
    using round64_le_pow2[of "x * ?p" "k + 2"] assms(2,3) by (simp add: Math_PI_def)
qed

lemma div_const_bound:
  assumes "\<bar>x\<bar> \<le> pow2 k" "- 1074 \<le> k" "k < 1024" "1 \<le> c"
  shows "\<exists>r. n_div (Finite x) (Finite c) = Finite r \<and> \<bar>r\<bar> \<le> pow2 k"
proof -
  have "\<bar>x / c\<bar> = \<bar>x\<bar> / c" using assms(4) by simp
  also have "\<dots> \<le> \<bar>x\<bar> / 1" using assms(4) by (intro divide_left_mono) simp_all
  finally have "\<bar>x / c\<bar> \<le> pow2 k" using assms(1) by simp
  then show ?thesis using round64_le_pow2[of "x / c" k] assms(2,3,4) by simp
qed

text \<open>The argument of a trigonometric function: degrees to radians, halved or not.\<close>

lemma radians_bound:
  assumes "\<bar>x\<bar> \<le> pow2 k" "- 1076 \<le> k" "k < 1022"
  shows "\<exists>r. n_div (n_mul (Finite x) Math_PI) (Finite 180) = Finite r \<and> \<bar>r\<bar> \<le> pow2 (k + 2)"
proof -
  obtain r1 where r1: "n_mul (Finite x) Math_PI = Finite r1" "\<bar>r1\<bar> \<le> pow2 (k + 2)"
    using times_PI_bound[OF assms] by blast
  show ?thesis unfolding r1(1)
    using div_const_bound[OF r1(2), of 180] assms(2,3) by simp
qed

lemma half_radians_bound:
  assumes "\<bar>x\<bar> \<le> pow2 k" "- 1076 \<le> k" "k < 1022"
  shows "\<exists>r. n_div (n_div (n_mul (Finite x) Math_PI) (Finite 180)) (Finite 2) = Finite r
           \<and> \<bar>r\<bar> \<le> pow2 (k + 2)"
proof -
  obtain r1 where r1: "n_div (n_mul (Finite x) Math_PI) (Finite 180) = Finite r1"
      "\<bar>r1\<bar> \<le> pow2 (k + 2)"
    using radians_bound[OF assms] by blast
  show ?thesis unfolding r1(1)
    using div_const_bound[OF r1(2), of 2] assms(2,3) by simp
qed

lemma difference_bound:
  assumes "\<bar>y - x\<bar> \<le> pow2 k" "- 1074 \<le> k" "k < 1022"
  shows "\<exists>r. n_div (n_div (n_mul (n_sub (Finite y) (Finite x)) Math_PI) (Finite 180)) (Finite 2)
            = Finite r \<and> \<bar>r\<bar> \<le> pow2 (k + 2)"
proof -
  obtain d where d: "round64 (y - x) = Finite d" "\<bar>d\<bar> \<le> pow2 k"
    using round64_le_pow2[OF assms(1,2)] assms(3) by auto
  show ?thesis using half_radians_bound[OF d(2)] assms(2,3) by (simp add: d(1))
qed

lemma difference_zero:
  assumes "conforming M"
  shows "Math_sin M (n_div (n_div (n_mul (n_sub (Finite x) (Finite x)) Math_PI) (Finite 180)) (Finite 2))
         = Finite 0"
  by (simp add: Math_PI_def sin_zero[OF assms])

lemma cos_cos_finite:
  assumes "conforming M" "\<bar>la1\<bar> \<le> pow2 1020" "\<bar>la2\<bar> \<le> pow2 1020"
  shows "\<exists>c. n_mul (Math_cos M (n_div (n_mul (Finite la1) Math_PI) (Finite 180)))
                    (Math_cos M (n_div (n_mul (Finite la2) Math_PI) (Finite 180))) = Finite c"
proof -
  obtain r1 where r1: "n_div (n_mul (Finite la1) Math_PI) (Finite 180) = Finite r1"
    using radians_bound[OF assms(2)] by auto
  obtain r2 where r2: "n_div (n_mul (Finite la2) Math_PI) (Finite 180) = Finite r2"
    using radians_bound[OF assms(3)] by auto
  obtain c1 where c1: "Math_cos M (Finite r1) = Finite c1" "\<bar>c1\<bar> \<le> 1"
    using cos_finite[OF assms(1)] by blast
  obtain c2 where c2: "Math_cos M (Finite r2) = Finite c2" "\<bar>c2\<bar> \<le> 1"
    using cos_finite[OF assms(1)] by blast
  have "\<bar>c1 * c2\<bar> \<le> 1 * 1" unfolding abs_mult using c1(2) c2(2) by (intro mult_mono) simp_all
  then have "\<bar>c1 * c2\<bar> \<le> pow2 0" by simp
  then obtain c where "round64 (c1 * c2) = Finite c"
    using round64_le_pow2[of "c1 * c2" 0] by auto
  then show ?thesis by (simp add: r1 r2 c1 c2)
qed

text \<open>On one meridian the second summand of \<open>a\<close> is zero.\<close>

lemma meridian_summand:
  assumes "conforming M" "\<bar>la1\<bar> \<le> pow2 1020" "\<bar>la2\<bar> \<le> pow2 1020"
  shows "n_mul
           (n_mul
             (n_mul (Math_cos M (n_div (n_mul (Finite la1) Math_PI) (Finite 180)))
                    (Math_cos M (n_div (n_mul (Finite la2) Math_PI) (Finite 180))))
             (Math_sin M (n_div (n_div (n_mul (n_sub (Finite lo) (Finite lo)) Math_PI) (Finite 180)) (Finite 2))))
           (Math_sin M (n_div (n_div (n_mul (n_sub (Finite lo) (Finite lo)) Math_PI) (Finite 180)) (Finite 2)))
         = Finite 0"
proof -
  obtain c where c: "n_mul (Math_cos M (n_div (n_mul (Finite la1) Math_PI) (Finite 180)))
                    (Math_cos M (n_div (n_mul (Finite la2) Math_PI) (Finite 180))) = Finite c"
    using cos_cos_finite[OF assms] by blast
  show ?thesis unfolding difference_zero[OF assms(1)] c by simp
qed

lemma calculateDistance_meridian:
  assumes "conforming M" "\<bar>la1\<bar> \<le> pow2 1020" "\<bar>la2\<bar> \<le> pow2 1020"
  shows "calculateDistance M la1 lo la2 lo =
           n_mul (Finite 6371) (n_mul (Finite 2)
             (Math_atan2 M
               (Math_sqrt M (n_add
                 (n_mul (Math_sin M (n_div (n_div (n_mul (n_sub (Finite la2) (Finite la1)) Math_PI) (Finite 180)) (Finite 2)))
                        (Math_sin M (n_div (n_div (n_mul (n_sub (Finite la2) (Finite la1)) Math_PI) (Finite 180)) (Finite 2))))
                 (Finite 0)))
               (Math_sqrt M (n_sub (Finite 1) (n_add
                 (n_mul (Math_sin M (n_div (n_div (n_mul (n_sub (Finite la2) (Finite la1)) Math_PI) (Finite 180)) (Finite 2)))
                        (Math_sin M (n_div (n_div (n_mul (n_sub (Finite la2) (Finite la1)) Math_PI) (Finite 180)) (Finite 2))))
                 (Finite 0))))))"
  unfolding calculateDistance_def Let_def meridian_summand[OF assms] ..

lemma meridian_sin:
  assumes "conforming M" "\<bar>la2 - la1\<bar> \<le> pow2 k" "- 1074 \<le> k" "k < 1022"
  shows "\<exists>s. Math_sin M (n_div (n_div (n_mul (n_sub (Finite la2) (Finite la1)) Math_PI)
                  (Finite 180)) (Finite 2)) = Finite s
             \<and> \<bar>s\<bar> \<le> 1 \<and> \<bar>s\<bar> \<le> pow2 (k + 2)"
proof -
  obtain r where r: "n_div (n_div (n_mul (n_sub (Finite la2) (Finite la1)) Math_PI) (Finite 180))
      (Finite 2) = Finite r" "\<bar>r\<bar> \<le> pow2 (k + 2)"
    using difference_bound[OF assms(2-4)] by blast
  obtain s where s: "Math_sin M (Finite r) = Finite s" "\<bar>s\<bar> \<le> 1"
      "\<forall>k. - 1074 \<le> k \<and> \<bar>r\<bar> \<le> pow2 k \<longrightarrow> \<bar>s\<bar> \<le> pow2 k"
    using sin_finite[OF assms(1), of r] by blast
  have "\<bar>s\<bar> \<le> pow2 (k + 2)" using s(3) r(2) assms(3) by simp
  then show ?thesis using s(1,2) unfolding r(1) by blast
qed


lemma calculateDistance_underflow:
  assumes "conforming M" "\<bar>la1\<bar> \<le> pow2 1020" "\<bar>la2\<bar> \<le> pow2 1020"
    and "\<bar>la2 - la1\<bar> \<le> pow2 (- 540)"
  shows "calculateDistance M la1 lo la2 lo = Finite 0"
proof -
  obtain s where s: "Math_sin M (n_div (n_div (n_mul (n_sub (Finite la2) (Finite la1)) Math_PI)
                  (Finite 180)) (Finite 2)) = Finite s" "\<bar>s\<bar> \<le> pow2 (- 538)"
    using meridian_sin[OF assms(1,4)] by auto
  have "\<bar>s * s\<bar> \<le> pow2 (- 538) * pow2 (- 538)"
    unfolding abs_mult using s(2) by (intro mult_mono) simp_all
  also have "pow2 (- 538) * pow2 (- 538) = pow2 (- 1076)" by (rule pow2_mult) simp
  also have "\<dots> < pow2 (- 1075)" by simp
  finally have "roundToDouble (s * s) = 0" by (rule roundToDouble_tiny)
  then have z: "round64 (s * s) = Finite 0" by (simp add: round64_def)
  show ?thesis
    unfolding calculateDistance_meridian[OF assms(1-3)] s(1)
    by (simp add: z sqrt_zero[OF assms(1)] sqrt_one[OF assms(1)] atan2_zero[OF assms(1)])
qed

lemma calculateDistance_self:
  assumes "conforming M" "\<bar>la\<bar> \<le> pow2 1020"
  shows "calculateDistance M la lo la lo = Finite 0"
  using calculateDistance_underflow[OF assms(1,2,2), of lo] by simp


subsection \<open>The score as a function of the distance\<close>

lemma normalizedDistance_NaN: "normalizedDistance NaN = NaN"
  by (simp add: normalizedDistance_def)

lemma normalizedDistance_eq_NaN: "normalizedDistance d = NaN \<longleftrightarrow> d = NaN"
  by (simp add: normalizedDistance_def)

lemma normalizedDistance_mono:
  "numLe d1 d2 \<Longrightarrow> numLe (normalizedDistance d2) (normalizedDistance d1)"
  unfolding normalizedDistance_def
  by (intro numLe_n_max numLe_n_sub numLe_n_div) simp_all

lemma normalizedDistance_0: "normalizedDistance (Finite 0) = Finite 1"
  by (simp add: normalizedDistance_def n_max_def)

lemma normalizedDistance_50: "normalizedDistance (Finite 50) = Finite 0"
  by (simp add: normalizedDistance_def n_max_def)

lemma normalizedDistance_lower:
  "d \<noteq> NaN \<Longrightarrow> numLe (Finite 0) (normalizedDistance d)"
  unfolding normalizedDistance_def
  by (rule n_max_lower) simp

lemma normalizedDistance_far:
  assumes "numLe (Finite 50) d"
  shows "normalizedDistance d = Finite 0"
proof -
  have "d \<noteq> NaN" using assms by auto
  then have "numLe (Finite 0) (normalizedDistance d)" by (rule normalizedDistance_lower)
  moreover have "numLe (normalizedDistance d) (Finite 0)"
    using normalizedDistance_mono[OF assms] by (simp only: normalizedDistance_50)
  ultimately show ?thesis using numLe_antisym by blast
qed

lemma normalizedDistance_range:
  assumes "nonNegative d"
  shows "\<exists>s. normalizedDistance d = Finite s \<and> 0 \<le> s \<and> s \<le> 1"
proof -
  have n: "d \<noteq> NaN" using assms by auto
  have l: "numLe (Finite 0) (normalizedDistance d)" using n by (rule normalizedDistance_lower)
  have u: "numLe (normalizedDistance d) (Finite 1)"
    using normalizedDistance_mono[of "Finite 0" d] assms
    by (simp only: normalizedDistance_0 nonNegative_def)
  show ?thesis using l u by (cases "normalizedDistance d") simp_all
qed

lemma atan2_nonneg: "0 \<le> y \<Longrightarrow> 0 \<le> x \<Longrightarrow> 0 \<le> atan2 y x"
  by (simp add: atan2_def zero_le_arctan_iff)

lemma atan2_upper:
  assumes "0 \<le> y" "0 \<le> x"
  shows "atan2 y x \<le> 2"
proof -
  have "arctan (y / x) < pi / 2" by (rule arctan_ubound)
  then have a: "arctan (y / x) \<le> 2" using pi_less_4 by linarith
  have p: "pi / 2 \<le> 2" using pi_less_4 by linarith
  consider "0 < x" | "x = 0" "0 < y" | "x = 0" "y = 0" using assms by fastforce
  then show ?thesis
  proof cases
    case 1 then show ?thesis using a by (simp add: atan2_def)
  next
    case 2 then show ?thesis using p by (simp add: atan2_def)
  next
    case 3 then show ?thesis by (simp add: atan2_def)
  qed
qed

lemma angle_range:
  assumes "nonNegative y" "nonNegative x"
  shows "0 \<le> angle y x \<and> angle y x \<le> 2"
proof (cases y)
  case (Finite a)
  then show ?thesis using assms atan2_nonneg[of a] atan2_upper[of a]
    by (cases x) (simp_all add: angle_def)
next
  case PosInf
  then show ?thesis using assms pi_less_4 pi_gt_zero
    by (cases x) (simp_all add: angle_def)
qed (use assms in simp_all)

lemma round64_sin:
  "\<exists>s. round64 (sin r) = Finite s \<and> \<bar>s\<bar> \<le> 1
       \<and> (\<forall>k. - 1074 \<le> k \<and> \<bar>r\<bar> \<le> pow2 k \<longrightarrow> \<bar>s\<bar> \<le> pow2 k)"
proof -
  have b: "\<bar>sin r\<bar> \<le> pow2 0" by simp
  have f: "round64 (sin r) = Finite (roundToDouble (sin r))" using b by (rule round64_finite) simp_all
  have u: "\<bar>roundToDouble (sin r)\<bar> \<le> 1" using roundToDouble_bound[OF b] by simp
  have "\<bar>roundToDouble (sin r)\<bar> \<le> pow2 k" if "- 1074 \<le> k" "\<bar>r\<bar> \<le> pow2 k" for k
  proof -
    have "\<bar>sin r\<bar> \<le> \<bar>r\<bar>" by (rule abs_sin_x_le_abs_x)
    then have "\<bar>sin r\<bar> \<le> pow2 k" using that(2) by linarith
    then show ?thesis using that(1) by (rule roundToDouble_bound)
  qed
  then show ?thesis using f u by blast
qed

lemma round64_cos: "\<exists>c. round64 (cos r) = Finite c \<and> \<bar>c\<bar> \<le> 1"
proof -
  have b: "\<bar>cos r\<bar> \<le> pow2 0" by simp
  have f: "round64 (cos r) = Finite (roundToDouble (cos r))" using b by (rule round64_finite) simp_all
  have u: "\<bar>roundToDouble (cos r)\<bar> \<le> 1" using roundToDouble_bound[OF b] by simp
  show ?thesis using f u by blast
qed

lemma round64_angle:
  assumes "nonNegative y" "nonNegative x"
  shows "\<exists>t. 0 \<le> t \<and> round64 (angle y x) = Finite t"
proof -
  have r: "0 \<le> angle y x" "angle y x \<le> 2" using angle_range[OF assms] by simp_all
  then have "\<bar>angle y x\<bar> \<le> pow2 1" by (simp add: pow2_1)
  then have "round64 (angle y x) = Finite (roundToDouble (angle y x))"
    by (rule round64_finite) simp_all
  then show ?thesis using roundToDouble_nonneg[OF r(1)] by blast
qed

lemma roundedMath_simps:
  "Math_sin roundedMath (Finite r) = round64 (sin r)"
  "Math_sin roundedMath PosInf = NaN"
  "Math_sin roundedMath NegInf = NaN"
  "Math_sin roundedMath NaN = NaN"
  "Math_cos roundedMath (Finite r) = round64 (cos r)"
  "Math_cos roundedMath PosInf = NaN"
  "Math_cos roundedMath NegInf = NaN"
  "Math_cos roundedMath NaN = NaN"
  "Math_sqrt roundedMath (Finite r) = (if r < 0 then NaN else round64 (sqrt r))"
  "Math_sqrt roundedMath PosInf = PosInf"
  "Math_sqrt roundedMath NegInf = NaN"
  "Math_sqrt roundedMath NaN = NaN"
  "Math_atan2 roundedMath y x = (if y = NaN \<or> x = NaN then NaN else round64 (angle y x))"
  by (simp_all add: roundedMath_def)

lemma conforming_roundedMath: "conforming roundedMath"
  unfolding conforming_def
proof (intro conjI allI impI)
  fix x show "Math_sin roundedMath (n_neg x) = n_neg (Math_sin roundedMath x)"
    by (cases x) (simp_all add: roundedMath_simps round64_minus)
next
  fix r show "\<exists>s. Math_sin roundedMath (Finite r) = Finite s \<and> \<bar>s\<bar> \<le> 1
       \<and> (\<forall>k. - 1074 \<le> k \<and> \<bar>r\<bar> \<le> pow2 k \<longrightarrow> \<bar>s\<bar> \<le> pow2 k)"
    unfolding roundedMath_simps by (rule round64_sin)
next
  fix r show "\<exists>c. Math_cos roundedMath (Finite r) = Finite c \<and> \<bar>c\<bar> \<le> 1"
    unfolding roundedMath_simps by (rule round64_cos)
next
  fix r :: real assume "0 \<le> r"
  then show "nonNegative (Math_sqrt roundedMath (Finite r))"
    by (simp add: roundedMath_simps round64_nonneg)
next
  fix r :: real assume "0 < r"
  then show "Math_atan2 roundedMath (Finite 0) (Finite r) = Finite 0"
    by (simp add: roundedMath_simps angle_def atan2_def)
next
  fix y x assume "nonNegative y \<and> nonNegative x"
  then have n: "nonNegative y" "nonNegative x" by simp_all
  then have "y \<noteq> NaN" "x \<noteq> NaN" by auto
  then show "\<exists>t. 0 \<le> t \<and> Math_atan2 roundedMath y x = Finite t"
    using round64_angle[OF n] by (simp add: roundedMath_simps)
qed (simp_all add: roundedMath_simps)

lemma roundToDouble_dyadic_pos:
  assumes "0 < n" "n < 2 ^ 53" "- 1074 \<le> k"
  shows "roundToDouble (of_int n * pow2 k) = of_int n * pow2 k"
proof -
  let ?x = "of_int n * pow2 k :: real"
  let ?e = "exponentOf ?x"
  have x: "0 < ?x" using assms(1) by simp
  have "of_int n < (of_int (2 ^ 53) :: real)" using assms(2) by (simp only: of_int_less_iff)
  then have "?x < pow2 53 * pow2 k" by (simp add: pow2_53)
  also have "pow2 53 * pow2 k = pow2 (k + 53)" by (rule pow2_mult) simp
  finally have u: "?x < pow2 (k + 53)" .
  have e: "?e \<le> k + 52"
  proof (cases "pow2 (- 1022) \<le> ?x")
    case True
    then have "pow2 ?e \<le> ?x" by (rule exponentOf_lower)
    then have "pow2 ?e < pow2 (k + 53)" using u by linarith
    then show ?thesis by simp
  next
    case False
    then have "\<bar>?x\<bar> < pow2 (- 1022)" using x by linarith
    moreover have "?x \<noteq> 0" using x by linarith
    ultimately have "?e = - 1022" by (rule exponentOf_small)
    then show ?thesis using assms(3) by simp
  qed
  then have "0 \<le> k - ?e + 52" by simp
  then obtain j :: int where j: "pow2 (k - ?e + 52) = of_int j" using pow2_int by blast
  have d: "pow2 k / pow2 (?e - 52) = of_int j" unfolding j[symmetric] by (rule pow2_divide) simp
  have "?x / pow2 (?e - 52) = of_int n * (pow2 k / pow2 (?e - 52))" by simp
  then have q: "?x / pow2 (?e - 52) = of_int (n * j)" unfolding d by simp
  have "roundToDouble ?x = of_int (n * j) * pow2 (?e - 52)"
    unfolding roundToDouble_pos[OF x] q by (simp only: rte_int)
  also have "\<dots> = ?x" using q[symmetric] by simp
  finally show ?thesis .
qed

lemma roundToDouble_dyadic:
  assumes "\<bar>n\<bar> \<le> 2 ^ 53" "- 1074 \<le> k"
  shows "roundToDouble (of_int n * pow2 k) = of_int n * pow2 k"
proof -
  have p: "roundToDouble (of_int m * pow2 k) = of_int m * pow2 k" if "0 < m" "m \<le> 2 ^ 53" for m
  proof (cases "m = 2 ^ 53")
    case True
    have "pow2 53 * pow2 k = pow2 (k + 53)" by (rule pow2_mult) simp
    then have "of_int m * pow2 k = pow2 (k + 53)" using True by (simp add: pow2_53)
    then show ?thesis using roundToDouble_pow2[of "k + 53"] assms(2) by simp
  next
    case False
    then have "m < 2 ^ 53" using that(2) by simp
    then show ?thesis using that(1) assms(2) by (intro roundToDouble_dyadic_pos)
  qed
  consider "0 < n" | "n = 0" | "n < 0" by linarith
  then show ?thesis
  proof cases
    case 1 then show ?thesis using p[of n] assms(1) by simp
  next
    case 2 then show ?thesis by simp
  next
    case 3
    then have "roundToDouble (of_int (- n) * pow2 k) = of_int (- n) * pow2 k"
      using p[of "- n"] assms(1) by simp
    then show ?thesis using roundToDouble_minus[of "of_int n * pow2 k"] by simp
  qed
qed

lemma roundToDouble_int:
  "\<bar>n\<bar> \<le> 2 ^ 53 \<Longrightarrow> roundToDouble (of_int n) = of_int n"
  using roundToDouble_dyadic[of n 0] by simp

lemma roundToDouble_fraction:
  "\<bar>n\<bar> \<le> 2 ^ 53 \<Longrightarrow> k \<le> 1074 \<Longrightarrow> roundToDouble (of_int n / 2 ^ k) = of_int n / 2 ^ k"
  using roundToDouble_dyadic[of n "- int k"] by (simp add: pow2_neg_nat)

lemma round64_between:
  assumes "lo \<le> x" "x \<le> hi" "roundToDouble lo = lo" "roundToDouble hi = hi"
    and "- (2 ^ 1024) < lo" "hi < 2 ^ 1024"
  shows "\<exists>r. round64 x = Finite r \<and> lo \<le> r \<and> r \<le> hi"
proof -
  have l: "lo \<le> roundToDouble x" using roundToDouble_mono[OF assms(1)] assms(3) by simp
  have u: "roundToDouble x \<le> hi" using roundToDouble_mono[OF assms(2)] assms(4) by simp
  have "\<bar>roundToDouble x\<bar> < 2 ^ 1024" using l u assms(5,6) by linarith
  then have "round64 x = Finite (roundToDouble x)" by (simp add: round64_def Let_def)
  then show ?thesis using l u by blast
qed

lemma round64_near:
  assumes "pow2 e \<le> x" "x < pow2 (e + 1)" "- 1022 \<le> e" "e < 1023"
    and "of_int m - 1 / 2 < x / pow2 (e - 52)" "x / pow2 (e - 52) < of_int m + 1 / 2"
  shows "round64 x = Finite (of_int m * pow2 (e - 52))"
proof -
  have "0 < x" using assms(1) pow2_pos[of e] by linarith
  then have "\<bar>x\<bar> \<le> pow2 (e + 1)" using assms(2) by simp
  moreover have "- 1074 \<le> e + 1" "e + 1 < 1024" using assms(3,4) by linarith+
  ultimately have "round64 x = Finite (roundToDouble x)" by (rule round64_finite)
  then show ?thesis using roundToDouble_near[OF assms(1-3,5,6)] by simp
qed

lemma exact_values:
  "roundToDouble (1 / 4) = 1 / 4"
  "roundToDouble (1 / 2) = 1 / 2"
  "roundToDouble (3 / 4) = 3 / 4"
  "roundToDouble (13 / 16) = 13 / 16"
  "roundToDouble (3 / 2) = 3 / 2"
  "roundToDouble (13 / 8) = 13 / 8"
  "roundToDouble 2 = 2"
  "roundToDouble 4 = 4"
  "roundToDouble 50 = 50"
  "roundToDouble 90 = 90"
  "roundToDouble 282 = 282"
  "roundToDouble 283 = 283"
  "roundToDouble 3185 = 3185"
  "roundToDouble 25484 = 25484"
  using roundToDouble_fraction[of 1 2] roundToDouble_fraction[of 1 1]
    roundToDouble_fraction[of 3 2] roundToDouble_fraction[of 13 4]
    roundToDouble_fraction[of 3 1] roundToDouble_fraction[of 13 3]
    roundToDouble_int[of 2] roundToDouble_int[of 4] roundToDouble_int[of 50]
    roundToDouble_int[of 90] roundToDouble_int[of 282] roundToDouble_int[of 283]
    roundToDouble_int[of 3185] roundToDouble_int[of 25484]
  by simp_all

lemma round64_exact:
  "roundToDouble x = x \<Longrightarrow> \<bar>x\<bar> < 2 ^ 1024 \<Longrightarrow> round64 x = Finite x"
  by (simp add: round64_def)

lemma arctan_half_lower: "1 / 4 \<le> arctan (1 / 2)"
proof -
  have "arctan 1 = 2 * arctan (1 / (1 + sqrt 2))" using arctan_half[of 1] by simp
  then have "arctan (1 / (1 + sqrt 2)) = pi / 8" by (simp add: arctan_one)
  then have "1 / 4 \<le> arctan (1 / (1 + sqrt 2))" using pi_ge_two by simp
  moreover have "1 / (1 + sqrt 2) \<le> 1 / 2"
  proof -
    have "1 \<le> sqrt 2" by simp
    then have "(2::real) \<le> 1 + sqrt 2" by linarith
    then show ?thesis using frac_le[of 1 1 2 "1 + sqrt 2"] by simp
  qed
  then have "arctan (1 / (1 + sqrt 2)) \<le> arctan (1 / 2)" by (rule arctan_monotone')
  ultimately show ?thesis by linarith
qed

lemma atan2_lower:
  assumes "1 / 2 \<le> y" "0 \<le> x" "x \<le> 1"
  shows "1 / 4 \<le> atan2 y x"
proof (cases "0 < x")
  case True
  have "y \<le> y / x" using True assms(1,3) by (simp add: field_simps mult_left_le)
  then have "1 / 2 \<le> y / x" using assms(1) by linarith
  then have "arctan (1 / 2) \<le> arctan (y / x)" by (rule arctan_monotone')
  then show ?thesis using True arctan_half_lower by (simp add: atan2_def)
next
  case False
  then have "x = 0" using assms(2) by simp
  then show ?thesis using assms(1) pi_ge_two by (simp add: atan2_def)
qed

lemma pow2_m1: "pow2 (- 1) = 1 / 2"
  using pow2_neg_nat[of 1] by simp

lemma pole_distance: "numLe (Finite 50) (calculateDistance roundedMath 0 0 90 0)"
proof -
  note c = conforming_roundedMath
  have p: "\<bar>0::real\<bar> \<le> pow2 1020" "\<bar>90::real\<bar> \<le> pow2 1020"
    by (simp_all add: pow2_numeral)
  have e0: "n_sub (Finite 90) (Finite 0) = Finite 90"
    using round64_exact[of 90] by (simp add: exact_values)
  obtain D1 where D1: "n_mul (Finite 90) Math_PI = Finite D1" "282 \<le> D1" "D1 \<le> 283"
    using round64_between[of 282 "90 * (884279719003555 / 281474976710656)" 283]
    by (auto simp: exact_values Math_PI_def)
  have "3 / 2 \<le> D1 / 180" "D1 / 180 \<le> 13 / 8" using D1(2,3) by simp_all
  then obtain D2 where D2: "n_div (Finite D1) (Finite 180) = Finite D2" "3 / 2 \<le> D2" "D2 \<le> 13 / 8"
    using round64_between[of "3 / 2" "D1 / 180" "13 / 8"] by (auto simp: exact_values)
  have "3 / 4 \<le> D2 / 2" "D2 / 2 \<le> 13 / 16" using D2(2,3) by simp_all
  then obtain D3 where D3: "n_div (Finite D2) (Finite 2) = Finite D3" "3 / 4 \<le> D3" "D3 \<le> 13 / 16"
    using round64_between[of "3 / 4" "D2 / 2" "13 / 16"] by (auto simp: exact_values)
  have "sin (pi / 6) \<le> sin D3"
    using D3(2,3) pi_less_4 pi_ge_two by (intro sin_monotone_2pi_le) simp_all
  then have "1 / 2 \<le> sin D3" by (simp add: sin_30)
  then obtain s where s: "Math_sin roundedMath (Finite D3) = Finite s" "1 / 2 \<le> s" "s \<le> 1"
    using round64_between[of "1 / 2" "sin D3" 1] by (auto simp: exact_values roundedMath_simps)
  have "(1 / 2) * (1 / 2) \<le> s * s" using s(2) by (intro mult_mono) simp_all
  moreover have "s * s \<le> 1 * 1" using s(2,3) by (intro mult_mono) simp_all
  ultimately obtain q where q: "n_mul (Finite s) (Finite s) = Finite q" "1 / 4 \<le> q" "q \<le> 1"
    using round64_between[of "1 / 4" "s * s" 1] by (auto simp: exact_values)
  obtain a where a: "n_add (Finite q) (Finite 0) = Finite a" "1 / 4 \<le> a" "a \<le> 1"
    using round64_between[of "1 / 4" q 1] q(2,3) by (auto simp: exact_values)
  have "sqrt (1 / 4) \<le> sqrt a" "sqrt a \<le> sqrt 1" using a(2,3) by (simp_all del: real_sqrt_one)
  then have "1 / 2 \<le> sqrt a" "sqrt a \<le> 1" by (simp_all add: real_sqrt_divide)
  then obtain y where y: "Math_sqrt roundedMath (Finite a) = Finite y" "1 / 2 \<le> y" "y \<le> 1"
    using round64_between[of "1 / 2" "sqrt a" 1] a(2) by (auto simp: exact_values roundedMath_simps)
  obtain b where b: "n_sub (Finite 1) (Finite a) = Finite b" "0 \<le> b" "b \<le> 1"
    using round64_unit[of "1 - a"] a(2,3) by auto
  have "0 \<le> sqrt b" "sqrt b \<le> 1" using b(2,3) by simp_all
  then obtain x where x: "Math_sqrt roundedMath (Finite b) = Finite x" "0 \<le> x" "x \<le> 1"
    using round64_unit[of "sqrt b"] b(2) by (auto simp: roundedMath_simps)
  have "1 / 4 \<le> atan2 y x" using y(2) x(2,3) by (rule atan2_lower)
  moreover have "atan2 y x \<le> 2" using y(2) x(2) by (intro atan2_upper) simp_all
  ultimately obtain t where t: "Math_atan2 roundedMath (Finite y) (Finite x) = Finite t"
      "1 / 4 \<le> t" "t \<le> 2"
    using round64_between[of "1 / 4" "atan2 y x" 2]
    by (auto simp: exact_values roundedMath_simps angle_def)
  obtain c2 where c2: "n_mul (Finite 2) (Finite t) = Finite c2" "1 / 2 \<le> c2" "c2 \<le> 4"
    using round64_between[of "1 / 2" "2 * t" 4] t(2,3) by (auto simp: exact_values)
  obtain d where d: "n_mul (Finite 6371) (Finite c2) = Finite d" "3185 \<le> d"
    using round64_between[of 3185 "6371 * c2" 25484] c2(2,3) by (auto simp: exact_values)
  have "calculateDistance roundedMath 0 0 90 0 = Finite d"
    unfolding calculateDistance_meridian[OF c p] e0 D1(1) D2(1) D3(1) s(1) q(1) a(1) y(1) b(1)
      x(1) t(1) c2(1) d(1) ..
  then show ?thesis using d(2) by simp
qed


lemma same_score_27_2:
  "normalizedDistance (Finite (27 / 2)) = Finite (1643813863990231 / 2251799813685248)"
proof -
  have q: "round64 (27 / 100) = Finite (of_int 4863887597560136 * pow2 (- 2 - 52))"
    by (rule round64_near) (simp_all add: pow2_neg_numeral pow2_m1)
  have x: "round64 (1 - 4863887597560136 / 2 ^ 54)
      = Finite (of_int 6575255455960924 * pow2 (- 1 - 52))"
    by (rule round64_near) (simp_all add: pow2_neg_numeral pow2_m1)
  show ?thesis
    using q x by (simp add: normalizedDistance_def pow2_neg_numeral n_max_def)
qed

lemma same_score_next:
  "normalizedDistance (Finite (7599824371187713 / 562949953421312))
   = Finite (1643813863990231 / 2251799813685248)"
proof -
  have q: "round64 (7599824371187713 / 562949953421312 / 50)
      = Finite (of_int 4863887597560136 * pow2 (- 2 - 52))"
    by (rule round64_near) (simp_all add: pow2_neg_numeral pow2_m1)
  have x: "round64 (1 - 4863887597560136 / 2 ^ 54)
      = Finite (of_int 6575255455960924 * pow2 (- 1 - 52))"
    by (rule round64_near) (simp_all add: pow2_neg_numeral pow2_m1)
  show ?thesis
    using q x by (simp add: normalizedDistance_def pow2_neg_numeral n_max_def)
qed

section \<open>The score\<close>

lemma calculateScore_normalizedDistance:
  "calculateScore M c p =
     normalizedDistance (calculateDistance M (lat c) (lng c) (lat (location p)) (lng (location p)))"
  by (simp add: calculateScore_def normalizedDistance_def)

lemma calculateScore_range:
  assumes "conforming M"
  shows "calculateScore M c p = NaN
       \<or> (\<exists>s. calculateScore M c p = Finite s \<and> 0 \<le> s \<and> s \<le> 1)"
  using calculateDistance_range[OF assms, of "lat c" "lng c" "lat (location p)" "lng (location p)"]
    normalizedDistance_range
  by (auto simp: calculateScore_normalizedDistance normalizedDistance_NaN)




section \<open>The sort and the truncation\<close>

lemma set_insertBy: "set (insertBy cmp x ys) = insert x (set ys)"
  by (induction ys) auto

lemma set_sortBy: "set (sortBy cmp xs) = set xs"
  by (induction xs) (auto simp: sortBy_def set_insertBy)









lemma slice0_take: "\<exists>n. slice0 xs k = take n xs"
  by (auto simp: slice0_def)







lemma roundToDouble_error:
  assumes "0 < x"
  shows "\<bar>roundToDouble x - x\<bar> \<le> pow2 (exponentOf x - 52) / 2"
proof -
  let ?u = "pow2 (exponentOf x - 52)"
  have "\<bar>x / ?u - of_int (roundTiesToEven (x / ?u))\<bar> \<le> 1 / 2" by (rule rte_close)
  then have "\<bar>x / ?u - of_int (roundTiesToEven (x / ?u))\<bar> * ?u \<le> 1 / 2 * ?u"
    by (intro mult_right_mono) simp_all
  moreover have "\<bar>x / ?u - of_int (roundTiesToEven (x / ?u))\<bar> * ?u
      = \<bar>(x / ?u - of_int (roundTiesToEven (x / ?u))) * ?u\<bar>"
    by (simp add: abs_mult)
  moreover have "(x / ?u - of_int (roundTiesToEven (x / ?u))) * ?u
      = x - of_int (roundTiesToEven (x / ?u)) * ?u"
    by (simp add: algebra_simps)
  ultimately have "\<bar>x - of_int (roundTiesToEven (x / ?u)) * ?u\<bar> \<le> ?u / 2" by simp
  then show ?thesis unfolding roundToDouble_pos[OF assms] by (simp add: abs_minus_commute)
qed

lemma roundToDouble_error_unit:
  assumes "0 \<le> x" "x \<le> 1"
  shows "\<bar>roundToDouble x - x\<bar> \<le> pow2 (- 54)"
proof -
  consider "x = 0" | "x = 1" | "0 < x" "x < 1" using assms by linarith
  then show ?thesis
  proof cases
    case 1 then show ?thesis by simp
  next
    case 2 then show ?thesis by simp
  next
    case 3
    have e: "exponentOf x \<le> - 1"
    proof (cases "pow2 (- 1022) \<le> x")
      case True
      then have "pow2 (exponentOf x) \<le> x" by (rule exponentOf_lower)
      then have "pow2 (exponentOf x) < pow2 0" using 3(2) by simp
      then show ?thesis by (simp del: pow2_0)
    next
      case False
      then have "\<bar>x\<bar> < pow2 (- 1022)" using 3(1) by linarith
      moreover have "x \<noteq> 0" using 3(1) by linarith
      ultimately have "exponentOf x = - 1022" by (rule exponentOf_small)
      then show ?thesis by simp
    qed
    have "pow2 (exponentOf x - 52) \<le> pow2 (- 53)" using e by simp
    moreover have "pow2 (- 53) = pow2 (- 54) * 2"
      using pow2_mult[of "- 54" 1 "- 53"] by (simp add: pow2_1)
    ultimately have "pow2 (exponentOf x - 52) / 2 \<le> pow2 (- 54)" by simp
    then show ?thesis using roundToDouble_error[OF 3(1)] by linarith
  qed
qed

lemma round64_error_unit:
  assumes "0 \<le> x" "x \<le> 1"
  shows "\<exists>r. round64 x = Finite r \<and> 0 \<le> r \<and> r \<le> 1 \<and> \<bar>r - x\<bar> \<le> pow2 (- 54)"
proof -
  have "\<bar>x\<bar> \<le> pow2 0" using assms by simp
  then have f: "round64 x = Finite (roundToDouble x)" by (rule round64_finite) simp_all
  have "roundToDouble x \<le> roundToDouble 1" using assms(2) by (rule roundToDouble_mono)
  then show ?thesis
    using f roundToDouble_nonneg[OF assms(1)] roundToDouble_error_unit[OF assms] by simp
qed

lemma normalizedDistance_error:
  assumes "0 \<le> r" "r \<le> 50"
  shows "\<exists>s. normalizedDistance (Finite r) = Finite s \<and> 0 \<le> s \<and> s \<le> 1
             \<and> \<bar>s - (1 - r / 50)\<bar> \<le> 1 / 2 ^ 53"
proof -
  have "0 \<le> r / 50" "r / 50 \<le> 1" using assms by simp_all
  then obtain q where q: "round64 (r / 50) = Finite q" "0 \<le> q" "q \<le> 1"
      "\<bar>q - r / 50\<bar> \<le> pow2 (- 54)"
    using round64_error_unit by blast
  have "0 \<le> 1 - q" "1 - q \<le> 1" using q(2,3) by simp_all
  then obtain s where s: "round64 (1 - q) = Finite s" "0 \<le> s" "s \<le> 1"
      "\<bar>s - (1 - q)\<bar> \<le> pow2 (- 54)"
    using round64_error_unit by blast
  have "pow2 (- 54) * 2 = pow2 (- 53)" using pow2_mult[of "- 54" 1 "- 53"] by (simp add: pow2_1)
  then have "\<bar>s - (1 - r / 50)\<bar> \<le> pow2 (- 53)" using q(4) s(4) by linarith
  then have "\<bar>s - (1 - r / 50)\<bar> \<le> 1 / 2 ^ 53" by (simp add: pow2_neg_numeral)
  moreover have "normalizedDistance (Finite r) = Finite s"
    using s(2) by (simp add: normalizedDistance_def q(1) s(1) n_max_def)
  ultimately show ?thesis using s(2,3) by blast
qed

lemma normalizedDistance_25: "normalizedDistance (Finite 25) = Finite (1 / 2)"
proof -
  have "round64 (1 / 2) = Finite (1 / 2)" by (rule round64_exact) (simp_all add: exact_values)
  then show ?thesis by (simp add: normalizedDistance_def n_max_def)
qed

section \<open>Scores of the sample records\<close>

lemma score_at_centre:
  assumes "conforming M" "\<bar>la\<bar> \<le> 2 ^ 1020"
  shows "calculateScore M \<lparr> lat = la, lng = lo \<rparr> (samplePlace i la lo tys r) = Finite 1"
proof -
  have "\<bar>la\<bar> \<le> pow2 1020" using assms(2) by (simp add: pow2_numeral)
  then show ?thesis
    by (simp add: calculateScore_normalizedDistance samplePlace_def
        calculateDistance_self[OF assms(1)] normalizedDistance_0)
qed





section \<open>The haversine term\<close>





lemma n_mul_Finite_eq_NaN [simp]: "c \<noteq> 0 \<Longrightarrow> n_mul (Finite c) x = NaN \<longleftrightarrow> x = NaN"
  by (cases x) (simp_all add: n_mul_def sgn_if)


section \<open>The merge: invariant and first match\<close>

lemma place_id_copyPlace [simp]: "place_id (copyPlace p) = place_id p"
  by (simp add: copyPlace_def)

lemma location_copyPlace [simp]: "location (copyPlace p) = location p"
  by (simp add: copyPlace_def)

lemma consistent_empty: "consistent emptyAccumulator"
  by (simp add: consistent_def emptyAccumulator_def)

lemma addPlace_cases:
  "addPlace c b st p =
     (if place_id p \<noteq> [] \<and> place_id p \<notin> seenPlaceIds st \<and> passesFilters c b p
      then st \<lparr> seenPlaceIds := insert (place_id p) (seenPlaceIds st),
                allResults := allResults st @ [copyPlace p] \<rparr>
      else st)"
  by (simp add: addPlace_def passesFilters_def)

lemma consistent_addPlace: "consistent st \<Longrightarrow> consistent (addPlace c b st p)"
  by (auto simp: addPlace_cases consistent_def)

lemma addUniqueResults_Nil: "addUniqueResults c b st [] = st"
  by (simp add: addUniqueResults_def)

lemma addUniqueResults_Cons:
  "addUniqueResults c b st (p # ps) = addUniqueResults c b (addPlace c b st p) ps"
  by (simp add: addUniqueResults_def)

lemma addUniqueResults_append:
  "addUniqueResults c b st (ps @ qs) = addUniqueResults c b (addUniqueResults c b st ps) qs"
  by (simp add: addUniqueResults_def)

lemma consistent_addUniqueResults:
  "consistent st \<Longrightarrow> consistent (addUniqueResults c b st ps)"
  by (induction ps arbitrary: st) (simp_all add: addUniqueResults_Nil addUniqueResults_Cons consistent_addPlace)

lemma foldl_addUniqueResults:
  "foldl (addUniqueResults c b) st batches = addUniqueResults c b st (concat batches)"
  by (induction batches arbitrary: st) (simp_all add: addUniqueResults_Nil addUniqueResults_append)

lemma find_append:
  "find P (xs @ ys) = (case find P xs of Some x \<Rightarrow> Some x | None \<Rightarrow> find P ys)"
  by (induction xs) auto

lemma find_None_seen:
  "consistent st \<Longrightarrow> find (\<lambda>q. place_id q = i) (allResults st) = None \<longleftrightarrow> i \<notin> seenPlaceIds st"
  by (auto simp: consistent_def find_None_iff)

lemma find_addPlace:
  assumes "consistent st" "i \<noteq> []"
  shows "find (\<lambda>q. place_id q = i) (allResults (addPlace c b st p)) =
     (case find (\<lambda>q. place_id q = i) (allResults st) of
        Some q \<Rightarrow> Some q
      | None \<Rightarrow> if place_id p = i \<and> passesFilters c b p then Some (copyPlace p) else None)"
  using assms find_None_seen[OF assms(1), of i]
  by (auto simp: addPlace_cases find_append split: option.splits)

lemma find_addUniqueResults:
  assumes "consistent st" "i \<noteq> []"
  shows "find (\<lambda>q. place_id q = i) (allResults (addUniqueResults c b st ps)) =
     (case find (\<lambda>q. place_id q = i) (allResults st) of
        Some q \<Rightarrow> Some q
      | None \<Rightarrow> map_option copyPlace (find (\<lambda>p. place_id p = i \<and> passesFilters c b p) ps))"
  using assms
proof (induction ps arbitrary: st)
  case Nil
  then show ?case by (simp add: addUniqueResults_Nil split: option.splits)
next
  case (Cons p ps)
  have c': "consistent (addPlace c b st p)" using Cons.prems(1) by (rule consistent_addPlace)
  show ?case
    using Cons.IH[OF c' Cons.prems(2)] find_addPlace[OF Cons.prems, of c b p]
    by (auto simp: addUniqueResults_Cons split: option.splits)
qed

lemma nonempty_ids:
  "consistent st \<Longrightarrow> \<forall>q\<in>set (allResults st). place_id q \<noteq> []"
  unfolding consistent_def by (metis imageI)

lemma addPlace_no_id: "place_id p = [] \<Longrightarrow> addPlace c b st p = st"
  by (simp add: addPlace_def)

lemma addUniqueResults_drop_no_id:
  "addUniqueResults c b st ps = addUniqueResults c b st (filter (\<lambda>p. place_id p \<noteq> []) ps)"
  by (induction ps arbitrary: st) (simp_all add: addUniqueResults_Nil addUniqueResults_Cons addPlace_no_id)

section \<open>The search as a whole\<close>

lemma within_addPlace:
  "\<forall>q\<in>set (allResults st). isWithinBounds b (lat (location q)) (lng (location q)) \<Longrightarrow>
   \<forall>q\<in>set (allResults (addPlace c b st p)). isWithinBounds b (lat (location q)) (lng (location q))"
  by (auto simp: addPlace_cases passesFilters_def)

lemma within_addUniqueResults:
  "\<forall>q\<in>set (allResults st). isWithinBounds b (lat (location q)) (lng (location q)) \<Longrightarrow>
   \<forall>q\<in>set (allResults (addUniqueResults c b st ps)). isWithinBounds b (lat (location q)) (lng (location q))"
proof (induction ps arbitrary: st)
  case Nil then show ?case by (simp add: addUniqueResults_Nil)
next
  case (Cons p ps)
  show ?case unfolding addUniqueResults_Cons
    by (rule Cons.IH[OF within_addPlace[OF Cons.prems]])
qed

lemma within_runStrategy:
  "\<forall>q\<in>set (allResults st). isWithinBounds b (lat (location q)) (lng (location q)) \<Longrightarrow>
   runStrategy loaded c b st r = Some st' \<Longrightarrow>
   \<forall>q\<in>set (allResults st'). isWithinBounds b (lat (location q)) (lng (location q))"
  by (auto simp: runStrategy_def within_addUniqueResults split: option.splits sum.splits)

lemma within_performSearches:
  "\<forall>q\<in>set (allResults st). isWithinBounds b (lat (location q)) (lng (location q)) \<Longrightarrow>
   performSearches loaded c b st rs = Some st' \<Longrightarrow>
   \<forall>q\<in>set (allResults st'). isWithinBounds b (lat (location q)) (lng (location q))"
proof (induction rs arbitrary: st)
  case Nil then show ?case by simp
next
  case (Cons r rs)
  from Cons.prems(2) obtain st1 where r1: "runStrategy loaded c b st r = Some st1"
    and r2: "performSearches loaded c b st1 rs = Some st'"
    by (auto split: option.splits)
  show ?case by (rule Cons.IH[OF within_runStrategy[OF Cons.prems(1) r1] r2])
qed

lemma set_rankResults: "set (rankResults M c k xs) \<subseteq> set xs"
proof -
  obtain n where "slice0 (sortBy (compareByScore M c) xs) k = take n (sortBy (compareByScore M c) xs)"
    using slice0_take by blast
  then show ?thesis using set_take_subset[of n "sortBy (compareByScore M c) xs"]
    by (simp add: rankResults_def set_sortBy)
qed

lemma search_resolves:
  "searchLocationsByDistanceAndPopularity M loaded c center k b rs = Some (Inr out) \<Longrightarrow>
   \<exists>st. performSearches loaded c b emptyAccumulator rs = Some st
        \<and> out = rankResults M center k (allResults st)"
  by (auto simp: searchLocationsByDistanceAndPopularity_def split: if_splits option.splits)

lemma performSearches_completes:
  "\<forall>r \<in> set rs. strategyResult loaded r \<noteq> None \<Longrightarrow>
   \<exists>st'. performSearches loaded c b st rs = Some st'"
proof (induction rs arbitrary: st)
  case Nil then show ?case by simp
next
  case (Cons r rs)
  from Cons.prems have "strategyResult loaded r \<noteq> None" by simp
  then have "\<exists>st1. runStrategy loaded c b st r = Some st1"
    by (cases "strategyResult loaded r") (auto simp: runStrategy_def split: sum.splits)
  then obtain st1 where "runStrategy loaded c b st r = Some st1" by blast
  moreover from Cons.prems have "\<forall>r \<in> set rs. strategyResult loaded r \<noteq> None" by simp
  then obtain st' where "performSearches loaded c b st1 rs = Some st'"
    using Cons.IH by blast
  ultimately show ?case by simp
qed

lemma search_completes:
  "loaded \<Longrightarrow> \<forall>r \<in> set rs. strategyResult loaded r \<noteq> None \<Longrightarrow>
   \<exists>out. searchLocationsByDistanceAndPopularity M loaded c center k b rs = Some (Inr out)"
  using performSearches_completes[of rs loaded c b emptyAccumulator]
  by (auto simp: searchLocationsByDistanceAndPopularity_def)



lemma trim_blank:
  assumes "\<forall>c \<in> set s. isWhiteSpace c"
  shows "trim s = []"
proof -
  have "dropWhile isWhiteSpace s = []" using assms by (induction s) simp_all
  then have "trim s = rev (dropWhile isWhiteSpace (rev []))" by (simp only: trim_def)
  then show ?thesis by simp
qed

lemma searchResults_addMarkers: "searchResults (addMarkers env ls st) = searchResults st"
  by (simp add: addMarkers_def)

section \<open>Evaluation on the sample records\<close>

lemmas merge_eval =
  addUniqueResults_def addPlace_def filteredOutByType_def placeTypeOf_def isCorrectTag_def
  isWithinBounds_def emptyAccumulator_def copyPlace_def orElse_def samplePlace_def

lemmas adapter_eval =
  textSearch_def nearbySearch_def findPlaceFromQuery_def strategyResult_def runStrategy_def
  convertResult_def orDefault_def sampleResult_def

lemma copyPlace_samplePlace: "copyPlace (samplePlace i la lo tys r) = samplePlace i la lo tys r"
  by (simp add: copyPlace_def samplePlace_def orElse_def)

text \<open>
  A query that is not blank, on a ready map with the SDK loaded: one text search is handed to
  the provider and its converted results are shown.
\<close>

lemma nonblank_query_calls:
  "performSearch
        \<lparr> mapInstance = Some (Some \<lparr> lat = 40.7580, lng = - 73.9855 \<rparr>, None), sdkLoaded = True, math = roundedMath,
          textPages = [\<lparr> results = Some [sampleResult ''p1'' 40.75 (- 73.98) [''cafe''] None],
                         status = OK, pagination = None \<rparr>],
          fallbackReplies = [] \<rparr>
        ''cafe''
        \<lparr> searchResults = [], markers = [], error = None, isLoading = False \<rparr>
     = Some (\<lparr> searchResults = [convertToLocation (samplePlace ''p1'' 40.75 (- 73.98) [''cafe''] None)],
              markers = [convertToLocation (samplePlace ''p1'' 40.75 (- 73.98) [''cafe''] None)],
              error = None, isLoading = False \<rparr>, [TextSearchCall ''cafe''])"
  by (simp add: performSearch_def trim_def isWhiteSpace_def addMarkers_def showResults_def
      adapter_eval samplePlace_def orElse_def Let_def)

section \<open>The claims\<close>

subsection \<open>C1: the score\<close>

text \<open>
  Claim C1, as stated, asks that of two distances up to 50 km the smaller one have the strictly
  greater score. The score is computed in double arithmetic: the distances 13.5 km and
  13.500000000000002 km, two neighbouring doubles, both get the score 0.73.
\<close>

theorem score_not_strict_counterexample:
  "(27 / 2 :: real) < 7599824371187713 / 562949953421312
   \<and> (7599824371187713 / 562949953421312 :: real) \<le> 50
   \<and> normalizedDistance (Finite (27 / 2)) = Finite (1643813863990231 / 2251799813685248)
   \<and> normalizedDistance (Finite (7599824371187713 / 562949953421312))
       = Finite (1643813863990231 / 2251799813685248)"
  by (simp add: same_score_27_2 same_score_next)

text \<open>
  Claim C1, amended. The score computed for a place is \<open>Math.max(0, 1 - d / 50)\<close> in double
  arithmetic, where \<open>d\<close> is the computed distance in kilometres between the search centre and
  the place. As a function of the distance the score does not increase: of two distances the
  smaller one has the greater or the same score. A distance of 50 km or more has score exactly
  0; a distance from 0 to 50 km has a score from 0 to 1 that differs from the exact value
  \<open>1 - d / 50\<close> by at most \<open>2\<^sup>-\<^sup>5\<^sup>3\<close>; the score is \<open>NaN\<close> exactly when the distance is.
  With a conforming \<open>Math\<close> the score of a place is \<open>NaN\<close> or lies between 0 and 1.
\<close>

theorem calculateScore_linear_falloff:
  "calculateScore M center p =
     n_max (Finite 0) (n_sub (Finite 1)
       (n_div (calculateDistance M (lat center) (lng center)
                 (lat (location p)) (lng (location p))) (Finite 50)))
   \<and> calculateScore M center p =
       normalizedDistance (calculateDistance M (lat center) (lng center)
                             (lat (location p)) (lng (location p)))
   \<and> (numLe d1 d2 \<longrightarrow> numLe (normalizedDistance d2) (normalizedDistance d1))
   \<and> (numLe (Finite 50) d \<longrightarrow> normalizedDistance d = Finite 0)
   \<and> (0 \<le> r \<and> r \<le> 50 \<longrightarrow>
        (\<exists>s. normalizedDistance (Finite r) = Finite s \<and> 0 \<le> s \<and> s \<le> 1
             \<and> \<bar>s - (1 - r / 50)\<bar> \<le> 1 / 2 ^ 53))
   \<and> (normalizedDistance d = NaN \<longleftrightarrow> d = NaN)
   \<and> (conforming M \<longrightarrow>
        calculateScore M center p = NaN
        \<or> (\<exists>s. calculateScore M center p = Finite s \<and> 0 \<le> s \<and> s \<le> 1))"
proof (intro conjI impI)
  show "calculateScore M center p =
     n_max (Finite 0) (n_sub (Finite 1)
       (n_div (calculateDistance M (lat center) (lng center)
                 (lat (location p)) (lng (location p))) (Finite 50)))"
    by (simp add: calculateScore_def)
  show "calculateScore M center p =
       normalizedDistance (calculateDistance M (lat center) (lng center)
                             (lat (location p)) (lng (location p)))"
    by (rule calculateScore_normalizedDistance)
  show "normalizedDistance d = NaN \<longleftrightarrow> d = NaN" by (rule normalizedDistance_eq_NaN)
next
  assume "numLe d1 d2"
  then show "numLe (normalizedDistance d2) (normalizedDistance d1)"
    by (rule normalizedDistance_mono)
next
  assume "numLe (Finite 50) d"
  then show "normalizedDistance d = Finite 0" by (rule normalizedDistance_far)
next
  assume "0 \<le> r \<and> r \<le> 50"
  then show "\<exists>s. normalizedDistance (Finite r) = Finite s \<and> 0 \<le> s \<and> s \<le> 1
             \<and> \<bar>s - (1 - r / 50)\<bar> \<le> 1 / 2 ^ 53"
    using normalizedDistance_error[of r] by blast
next
  assume "conforming M"
  then show "calculateScore M center p = NaN
        \<or> (\<exists>s. calculateScore M center p = Finite s \<and> 0 \<le> s \<and> s \<le> 1)"
    by (rule calculateScore_range)
qed

text \<open>
  An instance, with the correctly rounded \<open>Math\<close> and the centre \<open>(0, 0)\<close>: the distances
  0, 25 and 50 km have the scores 1, 0.5 and 0; a place at the centre has score 1 and the north
  pole, more than 50 km away, has score 0.
\<close>

theorem calculateScore_linear_falloff_witness:
  "numLe (Finite 0) (Finite 25)
   \<and> normalizedDistance (Finite 0) = Finite 1
   \<and> normalizedDistance (Finite 25) = Finite (1 / 2)
   \<and> numLe (normalizedDistance (Finite 25)) (normalizedDistance (Finite 0))
   \<and> numLe (Finite 50) (Finite 50)
   \<and> normalizedDistance (Finite 50) = Finite 0
   \<and> (0::real) \<le> 25 \<and> (25::real) \<le> 50
   \<and> conforming roundedMath
   \<and> numLe (Finite 50) (calculateDistance roundedMath 0 0 90 0)
   \<and> calculateScore roundedMath \<lparr> lat = 0, lng = 0 \<rparr> (samplePlace ''remote'' 90 0 [] None)
       = Finite 0
   \<and> calculateScore roundedMath \<lparr> lat = 0, lng = 0 \<rparr> (samplePlace ''here'' 0 0 [] None)
       = Finite 1"
proof -
  note t = calculateScore_linear_falloff[where M = roundedMath
      and center = "\<lparr> lat = 0, lng = 0 \<rparr>" and p = "samplePlace ''remote'' 90 0 [] None"
      and ?d1.0 = "Finite 0" and ?d2.0 = "Finite 25"
      and d = "calculateDistance roundedMath 0 0 90 0" and r = 25]
  have m: "numLe (normalizedDistance (Finite 25)) (normalizedDistance (Finite 0))"
    using t by simp
  have f: "normalizedDistance (calculateDistance roundedMath 0 0 90 0) = Finite 0"
    using t pole_distance by blast
  have "calculateScore roundedMath \<lparr> lat = 0, lng = 0 \<rparr> (samplePlace ''remote'' 90 0 [] None)
      = normalizedDistance (calculateDistance roundedMath (lat \<lparr> lat = 0, lng = 0 \<rparr>)
          (lng \<lparr> lat = 0, lng = 0 \<rparr>) (lat (location (samplePlace ''remote'' 90 0 [] None)))
          (lng (location (samplePlace ''remote'' 90 0 [] None))))"
    using t by blast
  then have s: "calculateScore roundedMath \<lparr> lat = 0, lng = 0 \<rparr>
      (samplePlace ''remote'' 90 0 [] None) = Finite 0"
    using f by (simp add: samplePlace_def)
  show ?thesis
    using m s pole_distance conforming_roundedMath
      score_at_centre[OF conforming_roundedMath, where la = 0 and lo = 0 and i = "''here''" and tys = "[]" and r = None]
    by (simp add: normalizedDistance_0 normalizedDistance_25 normalizedDistance_50)
qed

subsection \<open>C2: one record for each identifier\<close>

text \<open>
  Claim C2, as stated, asks that of two arriving records with the same identifier the first be
  kept and the later one skipped. When the first one lies outside the bounds it is dropped
  without its identifier being recorded, and the later one is kept.
\<close>

theorem first_arrival_not_kept_counterexample:
  "allResults (foldl (addUniqueResults ''restaurant''
       (Some \<lparr> ne = \<lparr> lat = 40.78, lng = - 73.95 \<rparr>, sw = \<lparr> lat = 40.70, lng = - 74.02 \<rparr> \<rparr>))
     emptyAccumulator
     [[samplePlace ''abc123'' 40.90 (- 73.90) [''restaurant''] (Some 4.5)],
      [samplePlace ''abc123'' 40.75 (- 73.98) [''restaurant''] (Some 3.9)]])
   = [samplePlace ''abc123'' 40.75 (- 73.98) [''restaurant''] (Some 3.9)]"
  by (simp add: merge_eval)

text \<open>
  Claim C2, amended. However the strategy results arrive, the merged list holds at most one
  record for each identifier and none with an empty identifier. For every non-empty identifier
  the record kept is the copy of the first arriving record with that identifier that passes
  the type filter and the bounds filter; no later record with that identifier changes it, and
  if no such record arrives the identifier does not occur.
\<close>

theorem merge_first_passing_wins:
  "distinct (map place_id (allResults (foldl (addUniqueResults category bnds) emptyAccumulator batches)))
   \<and> (\<forall>q \<in> set (allResults (foldl (addUniqueResults category bnds) emptyAccumulator batches)).
         place_id q \<noteq> [])
   \<and> (i \<noteq> [] \<longrightarrow>
         find (\<lambda>q. place_id q = i)
           (allResults (foldl (addUniqueResults category bnds) emptyAccumulator batches))
         = map_option copyPlace
             (find (\<lambda>p. place_id p = i \<and> passesFilters category bnds p) (concat batches)))"
proof -
  let ?st = "addUniqueResults category bnds emptyAccumulator (concat batches)"
  have c: "consistent ?st"
    by (rule consistent_addUniqueResults[OF consistent_empty])
  have d: "distinct (map place_id (allResults ?st))" using c by (simp add: consistent_def)
  have n: "\<forall>q \<in> set (allResults ?st). place_id q \<noteq> []" using c by (rule nonempty_ids)
  have f: "i \<noteq> [] \<longrightarrow> find (\<lambda>q. place_id q = i) (allResults ?st)
         = map_option copyPlace
             (find (\<lambda>p. place_id p = i \<and> passesFilters category bnds p) (concat batches))"
    using find_addUniqueResults[OF consistent_empty, of i category bnds "concat batches"]
    by (simp add: emptyAccumulator_def)
  show ?thesis unfolding foldl_addUniqueResults using d n f by blast
qed

text \<open>
  An instance: two strategies return the identifier \<open>abc123\<close> with ratings 4.5 and 3.9; the
  merged list holds the first record only, as it arrived.
\<close>

theorem merge_first_passing_wins_witness:
  "''abc123'' \<noteq> []
   \<and> allResults (foldl (addUniqueResults ''restaurant'' None) emptyAccumulator
       [[samplePlace ''abc123'' 40.75 (- 73.98) [''restaurant''] (Some 4.5)],
        [samplePlace ''abc123'' 40.75 (- 73.98) [''restaurant''] (Some 3.9)]])
     = [samplePlace ''abc123'' 40.75 (- 73.98) [''restaurant''] (Some 4.5)]
   \<and> find (\<lambda>q. place_id q = ''abc123'')
       (allResults (foldl (addUniqueResults ''restaurant'' None) emptyAccumulator
         [[samplePlace ''abc123'' 40.75 (- 73.98) [''restaurant''] (Some 4.5)],
          [samplePlace ''abc123'' 40.75 (- 73.98) [''restaurant''] (Some 3.9)]]))
     = Some (samplePlace ''abc123'' 40.75 (- 73.98) [''restaurant''] (Some 4.5))"
proof -
  have p: "passesFilters ''restaurant'' None (samplePlace ''abc123'' 40.75 (- 73.98) [''restaurant''] (Some 4.5))"
    by (simp add: passesFilters_def filteredOutByType_def placeTypeOf_def isCorrectTag_def
        isWithinBounds_def samplePlace_def)
  have i: "place_id (samplePlace ''abc123'' 40.75 (- 73.98) [''restaurant''] (Some 4.5)) = ''abc123''"
    by (simp add: samplePlace_def)
  have e: "allResults (foldl (addUniqueResults ''restaurant'' None) emptyAccumulator
       [[samplePlace ''abc123'' 40.75 (- 73.98) [''restaurant''] (Some 4.5)],
        [samplePlace ''abc123'' 40.75 (- 73.98) [''restaurant''] (Some 3.9)]])
     = [samplePlace ''abc123'' 40.75 (- 73.98) [''restaurant''] (Some 4.5)]"
    by (simp add: merge_eval)
  show ?thesis
    using merge_first_passing_wins[of "''restaurant''" None
        "[[samplePlace ''abc123'' 40.75 (- 73.98) [''restaurant''] (Some 4.5)],
          [samplePlace ''abc123'' 40.75 (- 73.98) [''restaurant''] (Some 3.9)]]" "''abc123''"]
      p i e
    by (simp add: copyPlace_samplePlace)
qed

subsection \<open>C3: the order of the output\<close>




subsection \<open>C4: the bounds\<close>

text \<open>
  Claim C4. \<open>isWithinBounds\<close> holds exactly when the latitude lies between the latitudes of
  the south-west and north-east corners and the longitude between their longitudes; without
  bounds it always holds. Every record of the search result lies within the bounds, so a
  candidate outside them is excluded whatever its score. The search does produce a result once
  the SDK is loaded and every launched strategy has settled.
\<close>

theorem isWithinBounds_filter:
  "(isWithinBounds (Some b) la lo \<longleftrightarrow>
      lat (sw b) \<le> la \<and> la \<le> lat (ne b) \<and> lng (sw b) \<le> lo \<and> lo \<le> lng (ne b))
   \<and> isWithinBounds None la lo
   \<and> (searchLocationsByDistanceAndPopularity M loaded category center maxResults bnds replies
        = Some (Inr out) \<longrightarrow>
      (\<forall>q \<in> set out. isWithinBounds bnds (lat (location q)) (lng (location q))))
   \<and> (loaded \<and> (\<forall>r \<in> set replies. strategyResult loaded r \<noteq> None) \<longrightarrow>
      (\<exists>res. searchLocationsByDistanceAndPopularity M loaded category center maxResults bnds replies
         = Some (Inr res)))"
proof (intro conjI impI)
  show "isWithinBounds (Some b) la lo \<longleftrightarrow>
      lat (sw b) \<le> la \<and> la \<le> lat (ne b) \<and> lng (sw b) \<le> lo \<and> lo \<le> lng (ne b)"
    by (simp add: isWithinBounds_def)
  show "isWithinBounds None la lo" by (simp add: isWithinBounds_def)
next
  assume "searchLocationsByDistanceAndPopularity M loaded category center maxResults bnds replies
        = Some (Inr out)"
  then obtain st where p: "performSearches loaded category bnds emptyAccumulator replies = Some st"
    and o: "out = rankResults M center maxResults (allResults st)"
    using search_resolves by blast
  have "\<forall>q\<in>set (allResults emptyAccumulator). isWithinBounds bnds (lat (location q)) (lng (location q))"
    by (simp add: emptyAccumulator_def)
  then have "\<forall>q\<in>set (allResults st). isWithinBounds bnds (lat (location q)) (lng (location q))"
    using p by (rule within_performSearches)
  then show "\<forall>q \<in> set out. isWithinBounds bnds (lat (location q)) (lng (location q))"
    unfolding o using set_rankResults[of M center maxResults "allResults st"] by blast
next
  assume "loaded \<and> (\<forall>r \<in> set replies. strategyResult loaded r \<noteq> None)"
  then show "\<exists>res. searchLocationsByDistanceAndPopularity M loaded category center maxResults
      bnds replies = Some (Inr res)"
    using search_completes[of loaded replies M category center maxResults bnds] by blast
qed

text \<open>
  An instance: with the bounds \<open>sw = (40.70, -74.02)\<close>, \<open>ne = (40.78, -73.95)\<close> the candidate
  at \<open>(40.90, -73.90)\<close> is dropped and the one at \<open>(40.75, -73.98)\<close> is returned.
\<close>

theorem isWithinBounds_filter_witness:
  "searchLocationsByDistanceAndPopularity roundedMath True ''restaurant''
      \<lparr> lat = 40.7580, lng = - 73.9855 \<rparr> 80
      (Some \<lparr> ne = \<lparr> lat = 40.78, lng = - 73.95 \<rparr>, sw = \<lparr> lat = 40.70, lng = - 74.02 \<rparr> \<rparr>)
      [TextSearchReply
        [\<lparr> results = Some [sampleResult ''outside'' 40.90 (- 73.90) [''restaurant''] None,
                            sampleResult ''inside'' 40.75 (- 73.98) [''restaurant''] None],
           status = OK, pagination = None \<rparr>]]
     = Some (Inr [samplePlace ''inside'' 40.75 (- 73.98) [''restaurant''] None])
   \<and> isWithinBounds
        (Some \<lparr> ne = \<lparr> lat = 40.78, lng = - 73.95 \<rparr>, sw = \<lparr> lat = 40.70, lng = - 74.02 \<rparr> \<rparr>)
        40.75 (- 73.98)
   \<and> \<not> isWithinBounds
        (Some \<lparr> ne = \<lparr> lat = 40.78, lng = - 73.95 \<rparr>, sw = \<lparr> lat = 40.70, lng = - 74.02 \<rparr> \<rparr>)
        40.90 (- 73.90)"
proof -
  have e: "searchLocationsByDistanceAndPopularity roundedMath True ''restaurant''
      \<lparr> lat = 40.7580, lng = - 73.9855 \<rparr> 80
      (Some \<lparr> ne = \<lparr> lat = 40.78, lng = - 73.95 \<rparr>, sw = \<lparr> lat = 40.70, lng = - 74.02 \<rparr> \<rparr>)
      [TextSearchReply
        [\<lparr> results = Some [sampleResult ''outside'' 40.90 (- 73.90) [''restaurant''] None,
                            sampleResult ''inside'' 40.75 (- 73.98) [''restaurant''] None],
           status = OK, pagination = None \<rparr>]]
     = Some (Inr [samplePlace ''inside'' 40.75 (- 73.98) [''restaurant''] None])"
    by (simp add: searchLocationsByDistanceAndPopularity_def adapter_eval merge_eval
        rankResults_def sortBy_def slice0_def)
  show ?thesis
    using e isWithinBounds_filter[of
        "\<lparr> ne = \<lparr> lat = 40.78, lng = - 73.95 \<rparr>, sw = \<lparr> lat = 40.70, lng = - 74.02 \<rparr> \<rparr>"
        "40.90" "- 73.90" roundedMath True "''restaurant''" "\<lparr> lat = 40.7580, lng = - 73.9855 \<rparr>" 80
        "Some \<lparr> ne = \<lparr> lat = 40.78, lng = - 73.95 \<rparr>, sw = \<lparr> lat = 40.70, lng = - 74.02 \<rparr> \<rparr>"
        "[TextSearchReply
        [\<lparr> results = Some [sampleResult ''outside'' 40.90 (- 73.90) [''restaurant''] None,
                            sampleResult ''inside'' 40.75 (- 73.98) [''restaurant''] None],
           status = OK, pagination = None \<rparr>]]"
        "[samplePlace ''inside'' 40.75 (- 73.98) [''restaurant''] None]"]
    by (simp add: samplePlace_def)
qed

subsection \<open>C5: the distance\<close>




subsection \<open>C6: failures\<close>



subsection \<open>C7: records without identifier\<close>

text \<open>
  Claim C7, as stated, asks that a record without identifier be included in the merged list.
  Such a record is skipped, although it passes both filters.
\<close>

theorem no_identifier_skipped_counterexample:
  "passesFilters ''restaurant'' None (samplePlace [] 40.75 (- 73.98) [''restaurant''] None)
   \<and> allResults (addUniqueResults ''restaurant'' None emptyAccumulator
         [samplePlace [] 40.75 (- 73.98) [''restaurant''] None]) = []"
  by (simp add: passesFilters_def merge_eval)

text \<open>
  Claim C7, amended. Records with an empty identifier are never added: merging a batch is the
  same as merging the batch without them, and every record of the merged list has a non-empty
  identifier.
\<close>

theorem no_identifier_never_added:
  "addUniqueResults category bnds st places
     = addUniqueResults category bnds st (filter (\<lambda>p. place_id p \<noteq> []) places)
   \<and> (\<forall>q \<in> set (allResults (foldl (addUniqueResults category bnds) emptyAccumulator batches)).
         place_id q \<noteq> [])"
proof
  show "addUniqueResults category bnds st places
     = addUniqueResults category bnds st (filter (\<lambda>p. place_id p \<noteq> []) places)"
    by (rule addUniqueResults_drop_no_id)
  have "consistent (addUniqueResults category bnds emptyAccumulator (concat batches))"
    by (rule consistent_addUniqueResults[OF consistent_empty])
  then show "\<forall>q \<in> set (allResults (foldl (addUniqueResults category bnds) emptyAccumulator batches)).
         place_id q \<noteq> []"
    unfolding foldl_addUniqueResults by (rule nonempty_ids)
qed

text \<open>An instance: of a record without identifier and one with, only the latter is kept.\<close>

theorem no_identifier_never_added_witness:
  "allResults (foldl (addUniqueResults ''cafe'' None) emptyAccumulator
      [[samplePlace [] 40.75 (- 73.98) [''cafe''] None,
        samplePlace ''p1'' 40.76 (- 73.97) [''cafe''] None]])
     = [samplePlace ''p1'' 40.76 (- 73.97) [''cafe''] None]
   \<and> place_id (samplePlace ''p1'' 40.76 (- 73.97) [''cafe''] None) \<noteq> []"
proof -
  have e: "allResults (foldl (addUniqueResults ''cafe'' None) emptyAccumulator
      [[samplePlace [] 40.75 (- 73.98) [''cafe''] None,
        samplePlace ''p1'' 40.76 (- 73.97) [''cafe''] None]])
     = [samplePlace ''p1'' 40.76 (- 73.97) [''cafe''] None]"
    by (simp add: merge_eval)
  show ?thesis
    using no_identifier_never_added[of "''cafe''" None emptyAccumulator "[]"
        "[[samplePlace [] 40.75 (- 73.98) [''cafe''] None,
           samplePlace ''p1'' 40.76 (- 73.97) [''cafe''] None]]"] e
    by simp
qed

subsection \<open>C8: the query \<open>sushi restaurant\<close>\<close>

text \<open>
  Claim C8. Without an explicit category the query \<open>sushi restaurant\<close> is classified as
  \<open>restaurants\<close>, with provider type \<open>restaurant\<close>. The classifier lower-cases the query and
  returns the first category, in the order restaurants, hotels, attractions, shopping, cafes,
  one of whose keywords occurs in it, and no category when none occurs; an explicit category
  is kept as it is. So \<open>Hotel Restaurant\<close> is a restaurant query, \<open>Grand Hotel\<close> a hotel
  query, \<open>museum cafe\<close> an attraction query, \<open>coffee store\<close> a shopping query, \<open>coffee\<close> a
  cafe query, and \<open>pizza\<close> has no category. Under the category of \<open>sushi restaurant\<close> a
  candidate tagged only \<open>lodging\<close> is left out, and a candidate tagged \<open>restaurant\<close> and
  \<open>food\<close>, with a new non-empty identifier, is added.
\<close>

theorem sushi_restaurant_classified:
  "detectCategory None ''sushi restaurant'' = Some ''restaurants''
   \<and> categoryPlaceType (detectCategory None ''sushi restaurant'') = Some ''restaurant''
   \<and> detectCategory None query =
       (if list_ex (includesStr (toLowerCase query)) [''restaurant'', ''food'', ''dining'']
          then Some ''restaurants''
        else if list_ex (includesStr (toLowerCase query)) [''hotel'', ''lodging'', ''accommodation'']
          then Some ''hotels''
        else if list_ex (includesStr (toLowerCase query)) [''attraction'', ''tourist'', ''museum'']
          then Some ''attractions''
        else if list_ex (includesStr (toLowerCase query)) [''shopping'', ''mall'', ''store'']
          then Some ''shopping''
        else if list_ex (includesStr (toLowerCase query)) [''cafe'', ''coffee'', ''coffee shop'']
          then Some ''cafes''
        else None)
   \<and> (includesStr (toLowerCase query) ''restaurant'' \<longrightarrow>
        detectCategory None query = Some ''restaurants'')
   \<and> (c \<noteq> [] \<longrightarrow> detectCategory (Some c) query = Some c)
   \<and> detectCategory None ''Hotel Restaurant'' = Some ''restaurants''
   \<and> detectCategory None ''Grand Hotel'' = Some ''hotels''
   \<and> detectCategory None ''museum cafe'' = Some ''attractions''
   \<and> detectCategory None ''coffee store'' = Some ''shopping''
   \<and> detectCategory None ''coffee'' = Some ''cafes''
   \<and> detectCategory None ''pizza'' = None
   \<and> (types p = [''lodging''] \<longrightarrow>
        searchLocations_addPlace (categoryPlaceType (detectCategory None ''sushi restaurant'')) st p
        = st)
   \<and> (types p = [''restaurant'', ''food''] \<and> place_id p \<noteq> [] \<and> place_id p \<notin> seenPlaceIds st \<longrightarrow>
        allResults (searchLocations_addPlace
          (categoryPlaceType (detectCategory None ''sushi restaurant'')) st p)
        = allResults st @ [copyPlace p])"
proof -
  have d: "detectCategory None ''sushi restaurant'' = Some ''restaurants''" by code_simp
  have t: "categoryPlaceType (Some ''restaurants'') = Some ''restaurant''"
    by (simp add: categoryPlaceType_def truthy_def)
  have g: "includesStr (toLowerCase query) ''restaurant'' \<longrightarrow>
        detectCategory None query = Some ''restaurants''"
    by (simp add: detectCategory_def truthy_def Let_def)
  have k: "detectCategory None query =
       (if list_ex (includesStr (toLowerCase query)) [''restaurant'', ''food'', ''dining'']
          then Some ''restaurants''
        else if list_ex (includesStr (toLowerCase query)) [''hotel'', ''lodging'', ''accommodation'']
          then Some ''hotels''
        else if list_ex (includesStr (toLowerCase query)) [''attraction'', ''tourist'', ''museum'']
          then Some ''attractions''
        else if list_ex (includesStr (toLowerCase query)) [''shopping'', ''mall'', ''store'']
          then Some ''shopping''
        else if list_ex (includesStr (toLowerCase query)) [''cafe'', ''coffee'', ''coffee shop'']
          then Some ''cafes''
        else None)"
    by (simp add: detectCategory_def truthy_def Let_def)
  have e: "c \<noteq> [] \<longrightarrow> detectCategory (Some c) query = Some c"
    by (simp add: detectCategory_def truthy_def)
  have i1: "detectCategory None ''Hotel Restaurant'' = Some ''restaurants''" by code_simp
  have i2: "detectCategory None ''Grand Hotel'' = Some ''hotels''" by code_simp
  have i3: "detectCategory None ''museum cafe'' = Some ''attractions''" by code_simp
  have i4: "detectCategory None ''coffee store'' = Some ''shopping''" by code_simp
  have i5: "detectCategory None ''coffee'' = Some ''cafes''" by code_simp
  have i6: "detectCategory None ''pizza'' = None" by code_simp
  have f1: "types p = [''lodging''] \<longrightarrow>
        searchLocations_addPlace (Some ''restaurant'') st p = st"
    by (simp add: searchLocations_addPlace_def searchLocations_isCorrectTag_def)
  have f2: "types p = [''restaurant'', ''food''] \<and> place_id p \<noteq> [] \<and> place_id p \<notin> seenPlaceIds st \<longrightarrow>
        allResults (searchLocations_addPlace (Some ''restaurant'') st p)
        = allResults st @ [copyPlace p]"
    by (simp add: searchLocations_addPlace_def searchLocations_isCorrectTag_def)
  show ?thesis unfolding d t using d t g k e i1 i2 i3 i4 i5 i6 f1 f2 by blast
qed

text \<open>
  An instance: the text search returns an inn tagged \<open>lodging\<close> and a sushi place tagged
  \<open>restaurant\<close>, \<open>food\<close>; \<open>searchLocations\<close> returns the sushi place only.
\<close>

theorem sushi_restaurant_classified_witness:
  "searchLocations True ''sushi restaurant'' None (Some \<lparr> lat = 40.7580, lng = - 73.9855 \<rparr>)
      [\<lparr> results = Some [sampleResult ''inn'' 40.75 (- 73.98) [''lodging''] None,
                          sampleResult ''sushi'' 40.76 (- 73.97) [''restaurant'', ''food''] None],
         status = OK, pagination = None \<rparr>]
      [\<lparr> results = None, status = ZERO_RESULTS, pagination = None \<rparr>]
      (Some (None, ZERO_RESULTS))
    = Some (Inr [samplePlace ''sushi'' 40.76 (- 73.97) [''restaurant'', ''food''] None])
   \<and> includesStr (toLowerCase ''Hotel Restaurant'') ''restaurant''
   \<and> detectCategory None ''Hotel Restaurant'' = Some ''restaurants''
   \<and> ''hotels'' \<noteq> []
   \<and> detectCategory (Some ''hotels'') ''sushi restaurant'' = Some ''hotels''
   \<and> detectCategory None ''tourist information'' = Some ''attractions''
   \<and> detectCategory None ''bookshop'' = None
   \<and> types (samplePlace ''inn'' 40.75 (- 73.98) [''lodging''] None) = [''lodging'']
   \<and> searchLocations_addPlace (categoryPlaceType (detectCategory None ''sushi restaurant''))
        emptyAccumulator (samplePlace ''inn'' 40.75 (- 73.98) [''lodging''] None)
      = emptyAccumulator
   \<and> allResults (searchLocations_addPlace (categoryPlaceType (detectCategory None ''sushi restaurant''))
        emptyAccumulator (samplePlace ''sushi'' 40.76 (- 73.97) [''restaurant'', ''food''] None))
      = [samplePlace ''sushi'' 40.76 (- 73.97) [''restaurant'', ''food''] None]"
proof -
  have d: "detectCategory None ''sushi restaurant'' = Some ''restaurants''" by code_simp
  have e: "searchLocations True ''sushi restaurant'' None (Some \<lparr> lat = 40.7580, lng = - 73.9855 \<rparr>)
      [\<lparr> results = Some [sampleResult ''inn'' 40.75 (- 73.98) [''lodging''] None,
                          sampleResult ''sushi'' 40.76 (- 73.97) [''restaurant'', ''food''] None],
         status = OK, pagination = None \<rparr>]
      [\<lparr> results = None, status = ZERO_RESULTS, pagination = None \<rparr>]
      (Some (None, ZERO_RESULTS))
    = Some (Inr [samplePlace ''sushi'' 40.76 (- 73.97) [''restaurant'', ''food''] None])"
    unfolding searchLocations_def d
    by (simp add: categoryPlaceType_def truthy_def searchLocations_strategy_def
        searchLocations_addUniqueResults_def searchLocations_addPlace_def
        searchLocations_isCorrectTag_def adapter_eval emptyAccumulator_def copyPlace_def
        orElse_def samplePlace_def slice0_def maxSearchResults_def)
  let ?inn = "samplePlace ''inn'' 40.75 (- 73.98) [''lodging''] None"
  let ?sushi = "samplePlace ''sushi'' 40.76 (- 73.97) [''restaurant'', ''food''] None"
  have w0: "types ?inn = [''lodging'']" by (simp add: samplePlace_def)
  have w1: "searchLocations_addPlace (categoryPlaceType (detectCategory None ''sushi restaurant''))
        emptyAccumulator ?inn = emptyAccumulator"
    using sushi_restaurant_classified[where p = ?inn and st = emptyAccumulator] w0 by blast
  have q0: "includesStr (toLowerCase ''Hotel Restaurant'') ''restaurant''" by code_simp
  have q1: "detectCategory None ''Hotel Restaurant'' = Some ''restaurants''"
    using sushi_restaurant_classified[where query = "''Hotel Restaurant''"] q0 by blast
  have h: "types ?sushi = [''restaurant'', ''food''] \<and> place_id ?sushi \<noteq> []
      \<and> place_id ?sushi \<notin> seenPlaceIds emptyAccumulator"
    by (simp add: samplePlace_def emptyAccumulator_def)
  have "allResults (searchLocations_addPlace
          (categoryPlaceType (detectCategory None ''sushi restaurant'')) emptyAccumulator ?sushi)
        = allResults emptyAccumulator @ [copyPlace ?sushi]"
    using sushi_restaurant_classified[where p = ?sushi and st = emptyAccumulator] h by blast
  also have "\<dots> = [?sushi]"
    by (simp add: emptyAccumulator_def copyPlace_def orElse_def samplePlace_def)
  finally have w2: "allResults (searchLocations_addPlace
          (categoryPlaceType (detectCategory None ''sushi restaurant'')) emptyAccumulator ?sushi)
        = [?sushi]" .
  have q2: "detectCategory (Some ''hotels'') ''sushi restaurant'' = Some ''hotels''"
    using sushi_restaurant_classified[where c = "''hotels''" and query = "''sushi restaurant''"]
    by simp
  have k1: "\<not> list_ex (includesStr (toLowerCase ''tourist information''))
              [''restaurant'', ''food'', ''dining'']" by code_simp
  have k2: "\<not> list_ex (includesStr (toLowerCase ''tourist information''))
              [''hotel'', ''lodging'', ''accommodation'']" by code_simp
  have k3: "list_ex (includesStr (toLowerCase ''tourist information''))
              [''attraction'', ''tourist'', ''museum'']" by code_simp
  have q3: "detectCategory None ''tourist information'' = Some ''attractions''"
    using sushi_restaurant_classified[where query = "''tourist information''"] k1 k2 k3
    by presburger
  have n1: "\<not> list_ex (includesStr (toLowerCase ''bookshop''))
              [''restaurant'', ''food'', ''dining'']" by code_simp
  have n2: "\<not> list_ex (includesStr (toLowerCase ''bookshop''))
              [''hotel'', ''lodging'', ''accommodation'']" by code_simp
  have n3: "\<not> list_ex (includesStr (toLowerCase ''bookshop''))
              [''attraction'', ''tourist'', ''museum'']" by code_simp
  have n4: "\<not> list_ex (includesStr (toLowerCase ''bookshop''))
              [''shopping'', ''mall'', ''store'']" by code_simp
  have n5: "\<not> list_ex (includesStr (toLowerCase ''bookshop''))
              [''cafe'', ''coffee'', ''coffee shop'']" by code_simp
  have q4: "detectCategory None ''bookshop'' = None"
    using sushi_restaurant_classified[where query = "''bookshop''"] n1 n2 n3 n4 n5
    by presburger
  have q5: "''hotels'' \<noteq> []" by simp
  show ?thesis using e q0 q1 q2 q3 q4 q5 w0 w1 w2 by blast
qed

subsection \<open>C9: blank queries\<close>

text \<open>
  Claim C9. For a query that is empty or consists of white space only, \<open>performSearch\<close>
  completes with an empty result list and hands no request to the provider.
\<close>

theorem blank_query_no_calls:
  "(\<forall>c \<in> set searchQuery. isWhiteSpace c) \<longrightarrow>
     (\<exists>st'. performSearch env searchQuery st = Some (st', []) \<and> searchResults st' = [])"
  by (simp add: performSearch_def trim_blank searchResults_addMarkers)

text \<open>
  Instances: two spaces on a ready map whose provider would return a place, and the empty
  query.
\<close>

theorem blank_query_no_calls_witness:
  "list_all isWhiteSpace ''  ''
   \<and> performSearch
        \<lparr> mapInstance = Some (Some \<lparr> lat = 40.7580, lng = - 73.9855 \<rparr>, None), sdkLoaded = True, math = roundedMath,
          textPages = [\<lparr> results = Some [sampleResult ''p1'' 40.75 (- 73.98) [''cafe''] None],
                         status = OK, pagination = None \<rparr>],
          fallbackReplies = [] \<rparr>
        ''  ''
        \<lparr> searchResults = [convertToLocation (samplePlace ''old'' 40.75 (- 73.98) [] None)],
          markers = [], error = Some ''x'', isLoading = False \<rparr>
     = Some (\<lparr> searchResults = [], markers = [], error = None, isLoading = False \<rparr>, [])
   \<and> (\<exists>st'. performSearch
        \<lparr> mapInstance = None, sdkLoaded = False, math = roundedMath, textPages = [], fallbackReplies = [] \<rparr> []
        \<lparr> searchResults = [], markers = [], error = None, isLoading = False \<rparr>
        = Some (st', []) \<and> searchResults st' = [])"
proof -
  have w: "\<forall>c \<in> set ''  ''. isWhiteSpace c" by (simp add: isWhiteSpace_def)
  have a: "performSearch
        \<lparr> mapInstance = Some (Some \<lparr> lat = 40.7580, lng = - 73.9855 \<rparr>, None), sdkLoaded = True, math = roundedMath,
          textPages = [\<lparr> results = Some [sampleResult ''p1'' 40.75 (- 73.98) [''cafe''] None],
                         status = OK, pagination = None \<rparr>],
          fallbackReplies = [] \<rparr>
        ''  ''
        \<lparr> searchResults = [convertToLocation (samplePlace ''old'' 40.75 (- 73.98) [] None)],
          markers = [], error = Some ''x'', isLoading = False \<rparr>
     = Some (\<lparr> searchResults = [], markers = [], error = None, isLoading = False \<rparr>, [])"
    by (simp add: performSearch_def trim_def isWhiteSpace_def addMarkers_def)
  have l: "list_all isWhiteSpace ''  ''" by (simp add: isWhiteSpace_def)
  show ?thesis
    using w a l
      blank_query_no_calls[of "[]"
        "\<lparr> mapInstance = None, sdkLoaded = False, math = roundedMath, textPages = [], fallbackReplies = [] \<rparr>"
        "\<lparr> searchResults = [], markers = [], error = None, isLoading = False \<rparr>"]
      blank_query_no_calls[of "''  ''"
        "\<lparr> mapInstance = Some (Some \<lparr> lat = 40.7580, lng = - 73.9855 \<rparr>, None), sdkLoaded = True, math = roundedMath,
          textPages = [\<lparr> results = Some [sampleResult ''p1'' 40.75 (- 73.98) [''cafe''] None],
                         status = OK, pagination = None \<rparr>],
          fallbackReplies = [] \<rparr>"
        "\<lparr> searchResults = [convertToLocation (samplePlace ''old'' 40.75 (- 73.98) [] None)],
          markers = [], error = Some ''x'', isLoading = False \<rparr>"]
    by simp
qed

subsection \<open>C10: the display record\<close>

text \<open>
  Claim C10, as stated, asks that \<open>convertToLocation\<close> replace a missing address by
  \<open>No address available\<close>. An empty address stays empty.
\<close>

theorem address_passed_through_counterexample:
  "formatted_address ((samplePlace ''p1'' 40.75 (- 73.98) [''cafe''] None) \<lparr> formatted_address := [] \<rparr>) = []
   \<and> loc_address (convertToLocation
        ((samplePlace ''p1'' 40.75 (- 73.98) [''cafe''] None) \<lparr> formatted_address := [] \<rparr>)) = []
   \<and> loc_address (convertToLocation
        ((samplePlace ''p1'' 40.75 (- 73.98) [''cafe''] None) \<lparr> formatted_address := [] \<rparr>))
      \<noteq> ''No address available''"
  by (simp add: convertToLocation_def samplePlace_def)

text \<open>
  Claim C10, amended. \<open>convertToLocation\<close> is defined on every record; it replaces a missing
  name by \<open>Unknown Location\<close> and passes the address on unchanged. The default
  \<open>No address available\<close> is filled in before, where the adapter converts the provider's
  record; there a missing name becomes \<open>Unknown\<close>, which \<open>convertToLocation\<close> keeps.
\<close>

theorem convertToLocation_defaults:
  "loc_name (convertToLocation r) = (if name r = [] then ''Unknown Location'' else name r)
   \<and> loc_address (convertToLocation r) = formatted_address r
   \<and> loc_address (convertToLocation (convertResult pr))
      = (case pr_formatted_address pr of
           None \<Rightarrow> ''No address available''
         | Some s \<Rightarrow> if s = [] then ''No address available'' else s)
   \<and> loc_name (convertToLocation (convertResult pr))
      = (case pr_name pr of
           None \<Rightarrow> ''Unknown''
         | Some s \<Rightarrow> if s = [] then ''Unknown'' else s)"
  by (simp add: convertToLocation_def convertResult_def orElse_def orDefault_def Let_def
      split: option.splits)

text \<open>Instances: a record without name, a record with address, a provider record without address.\<close>

theorem convertToLocation_defaults_witness:
  "loc_name (convertToLocation ((samplePlace ''p1'' 40.75 (- 73.98) [''cafe''] None) \<lparr> name := [] \<rparr>))
     = ''Unknown Location''
   \<and> loc_address (convertToLocation (samplePlace ''p1'' 40.75 (- 73.98) [''cafe''] None))
     = ''1 Main St''
   \<and> loc_address (convertToLocation (convertResult
        ((sampleResult ''p1'' 40.75 (- 73.98) [''cafe''] None) \<lparr> pr_formatted_address := None \<rparr>)))
     = ''No address available''"
  using convertToLocation_defaults[of
      "(samplePlace ''p1'' 40.75 (- 73.98) [''cafe''] None) \<lparr> name := [] \<rparr>"
      "(sampleResult ''p1'' 40.75 (- 73.98) [''cafe''] None) \<lparr> pr_formatted_address := None \<rparr>"]
    convertToLocation_defaults[of "samplePlace ''p1'' 40.75 (- 73.98) [''cafe''] None"
      "(sampleResult ''p1'' 40.75 (- 73.98) [''cafe''] None) \<lparr> pr_formatted_address := None \<rparr>"]
  by (simp add: samplePlace_def sampleResult_def)

end
